theory Spec2Isabelle
  imports Complex_Main "HOL-Library.Word" "HOL-Library.Log_Nat" "HOL-Library.Multiset"
begin

section \<open>The status of a check\<close>

text \<open>
  \<^verbatim>\<open>type Status int32\<close>: a status is a signed 32-bit integer, and the four named
  statuses are the constants 0 to 3. Go compares values of this type as signed integers,
  which is \<open><s\<close> on words (\<open>sint\<close> reads the two's complement value).
\<close>

type_synonym Status = "32 word"

definition Success :: Status where
  "Success = 0"

definition Warning :: Status where
  "Warning = 1"

definition Failure :: Status where
  "Failure = 2"

definition Error :: Status where
  "Error = 3"

text \<open>
  \<^verbatim>\<open>
  func SetStatus(oldStatus Status, newStatus Status) Status {
      if newStatus > oldStatus {
          return newStatus
      }
      return oldStatus
  }
  \<close>
\<close>

definition SetStatus :: "Status \<Rightarrow> Status \<Rightarrow> Status" where
  "SetStatus oldStatus newStatus = (if oldStatus <s newStatus then newStatus else oldStatus)"

section \<open>The result of a check\<close>

text \<open>
  \<^verbatim>\<open>
  type Result struct {
      Name     string
      Status   Status
      Messages []string
      Checks   map[string]*Result
  }
  \<close>
  A result is a node of a tree: \<open>Checks\<close> maps the name of a sub-check to its result.
  The map is a partial function. A child is the value it has when it is attached: the
  code stores a pointer, so that a later call on the child is seen through the parent's
  map, and such later calls are not calls of this model. Nil pointers and nil maps are
  outside the model, every \<open>Result\<close> being one whose \<open>Checks\<close> map is initialised, as
  \<open>MakeResult\<close> does.
\<close>

datatype Result =
  Result (Name: string) (Status: Status) (Messages: "string list")
    (Checks: "string \<rightharpoonup> Result")

definition MakeResult :: "string \<Rightarrow> Result" where
  "MakeResult name = Result name Success [] Map.empty"

text \<open>
  The reporting methods mutate their receiver and return it; the model returns the new
  value. \<^verbatim>\<open>fmt.Sprintf\<close> belongs to Go's library: it is the parameter \<open>Sprintf\<close>, applied to
  the format string that the method builds and to the variadic arguments.
  \<^verbatim>\<open>
  func (r *Result) Error(format string, a ...interface{}) *Result {
      r.Status = SetStatus(r.Status, Error)
      r.Messages = append(r.Messages, fmt.Sprintf("Error: "+format, a...))
      return r
  }
  \<close>
  \<open>Failure\<close> and \<open>Warning\<close> are the same with their own status and prefix.
\<close>

definition Result_Error ::
  "(string \<Rightarrow> 'v list \<Rightarrow> string) \<Rightarrow> Result \<Rightarrow> string \<Rightarrow> 'v list \<Rightarrow> Result" where
  "Result_Error Sprintf r format a =
     Result (Name r) (SetStatus (Status r) Error)
       (Messages r @ [Sprintf (''Error: '' @ format) a]) (Checks r)"

definition Result_Failure ::
  "(string \<Rightarrow> 'v list \<Rightarrow> string) \<Rightarrow> Result \<Rightarrow> string \<Rightarrow> 'v list \<Rightarrow> Result" where
  "Result_Failure Sprintf r format a =
     Result (Name r) (SetStatus (Status r) Failure)
       (Messages r @ [Sprintf (''Failure: '' @ format) a]) (Checks r)"

definition Result_Warning ::
  "(string \<Rightarrow> 'v list \<Rightarrow> string) \<Rightarrow> Result \<Rightarrow> string \<Rightarrow> 'v list \<Rightarrow> Result" where
  "Result_Warning Sprintf r format a =
     Result (Name r) (SetStatus (Status r) Warning)
       (Messages r @ [Sprintf (''Warning: '' @ format) a]) (Checks r)"

text \<open>
  \<^verbatim>\<open>
  func (r *Result) Success() *Result {
      r.Status = SetStatus(r.Status, Success)
      return r
  }
  \<close>
\<close>

definition Result_Success :: "Result \<Rightarrow> Result" where
  "Result_Success r = Result (Name r) (SetStatus (Status r) Success) (Messages r) (Checks r)"

text \<open>
  \<^verbatim>\<open>
  func (r *Result) subcheckSucceeded(checkName string) bool {
      if result, ok := r.Checks[checkName]; ok {
          return result.Status == Success
      }
      return false
  }
  \<close>
\<close>

definition subcheckSucceeded :: "Result \<Rightarrow> string \<Rightarrow> bool" where
  "subcheckSucceeded r checkName =
     (case Checks r checkName of
        Some result \<Rightarrow> Status result = Success
      | None \<Rightarrow> False)"

text \<open>
  \<^verbatim>\<open>
  func (r *Result) addCheck(checkResult *Result) {
      r.Checks[checkResult.Name] = checkResult
      r.Status = SetStatus(r.Status, checkResult.Status)
  }
  \<close>
\<close>

definition addCheck :: "Result \<Rightarrow> Result \<Rightarrow> Result" where
  "addCheck r checkResult =
     Result (Name r) (SetStatus (Status r) (Status checkResult)) (Messages r)
       ((Checks r)(Name checkResult \<mapsto> checkResult))"

subsection \<open>Sequences of calls on one result\<close>

text \<open>
  A call of one of the five mutating methods, with its arguments, and the result after a
  sequence of such calls on the same receiver.
\<close>

datatype 'v invocation =
  Call_Error string "'v list"
| Call_Failure string "'v list"
| Call_Warning string "'v list"
| Call_Success
| Call_addCheck Result

fun invoke :: "(string \<Rightarrow> 'v list \<Rightarrow> string) \<Rightarrow> Result \<Rightarrow> 'v invocation \<Rightarrow> Result" where
  "invoke Sprintf r (Call_Error format a) = Result_Error Sprintf r format a"
| "invoke Sprintf r (Call_Failure format a) = Result_Failure Sprintf r format a"
| "invoke Sprintf r (Call_Warning format a) = Result_Warning Sprintf r format a"
| "invoke Sprintf r Call_Success = Result_Success r"
| "invoke Sprintf r (Call_addCheck checkResult) = addCheck r checkResult"

definition invoke_all :: "(string \<Rightarrow> 'v list \<Rightarrow> string) \<Rightarrow> Result \<Rightarrow> 'v invocation list \<Rightarrow> Result" where
  "invoke_all Sprintf r cs = foldl (invoke Sprintf) r cs"

text \<open>The levels reported directly on the receiver by a sequence of calls, in order.\<close>

fun reported :: "'v invocation list \<Rightarrow> Status list" where
  "reported [] = []"
| "reported (Call_Error format a # cs) = Error # reported cs"
| "reported (Call_Failure format a # cs) = Failure # reported cs"
| "reported (Call_Warning format a # cs) = Warning # reported cs"
| "reported (Call_Success # cs) = Success # reported cs"
| "reported (Call_addCheck checkResult # cs) = reported cs"

text \<open>The children attached by a sequence of calls, in order.\<close>

fun attached :: "'v invocation list \<Rightarrow> Result list" where
  "attached [] = []"
| "attached (Call_addCheck checkResult # cs) = checkResult # attached cs"
| "attached (c # cs) = attached cs"

text \<open>
  The status invariant in the specification's words: the severities of which the status
  of a result is said to be the maximum are those of its own directly reported levels and
  of the children currently in \<open>Checks\<close>, together with the initial \<open>Success\<close>.
\<close>

definition spec_severities :: "Status list \<Rightarrow> Result \<Rightarrow> int set" where
  "spec_severities levels r = sint ` ({Success} \<union> set levels \<union> Status ` ran (Checks r))"

text \<open>
  The severities that the code accumulates: those of the directly reported levels and of
  every child ever attached, together with the initial \<open>Success\<close>.
\<close>

definition code_severities :: "Status list \<Rightarrow> Result list \<Rightarrow> int set" where
  "code_severities levels children = sint ` ({Success} \<union> set levels \<union> Status ` set children)"

text \<open>The status that a call hands to \<open>SetStatus\<close> as the new status.\<close>

fun passed :: "'v invocation \<Rightarrow> Status" where
  "passed (Call_Error format a) = Error"
| "passed (Call_Failure format a) = Failure"
| "passed (Call_Warning format a) = Warning"
| "passed Call_Success = Success"
| "passed (Call_addCheck checkResult) = Status checkResult"

text \<open>The messages that a sequence of calls appends to the receiver's list, in order.\<close>

fun appended :: "(string \<Rightarrow> 'v list \<Rightarrow> string) \<Rightarrow> 'v invocation list \<Rightarrow> string list" where
  "appended Sprintf [] = []"
| "appended Sprintf (Call_Error format a # cs) =
     Sprintf (''Error: '' @ format) a # appended Sprintf cs"
| "appended Sprintf (Call_Failure format a # cs) =
     Sprintf (''Failure: '' @ format) a # appended Sprintf cs"
| "appended Sprintf (Call_Warning format a # cs) =
     Sprintf (''Warning: '' @ format) a # appended Sprintf cs"
| "appended Sprintf (Call_Success # cs) = appended Sprintf cs"
| "appended Sprintf (Call_addCheck checkResult # cs) = appended Sprintf cs"

text \<open>The \<open>Checks\<close> map after attaching a list of children to it, one after the other.\<close>

fun children_after :: "(string \<rightharpoonup> Result) \<Rightarrow> Result list \<Rightarrow> (string \<rightharpoonup> Result)" where
  "children_after m [] = m"
| "children_after m (x # xs) = children_after (m(Name x \<mapsto> x)) xs"

section \<open>Floating-point numbers\<close>

text \<open>
  \<open>PercentMTASTS\<close> computes in \<open>float64\<close>. A finite \<open>float64\<close> is the rational number it
  stands for, and each operation returns the exact result rounded to the nearest number
  with a significand of 53 bits, a tie going to the even significand, as IEEE 754
  prescribes for binary64. The numbers that arise here are integers of at most 64 bits,
  a hundred times such an integer, and quotients of these by a non-zero integer: all of
  them are zero or lie within the normal range of the format, so that neither overflow
  nor subnormal numbers occur; the sign of a zero is not part of the model.

  \<open>round_half_even\<close> rounds to the nearest integer, \<open>binade x\<close> is the exponent \<open>e\<close> with
  \<open>2 ^ e \<le> x < 2 ^ (e + 1)\<close> for positive \<open>x\<close>, and \<open>round_float64\<close> rounds to a multiple of
  \<open>2 ^ (e - 52)\<close>.
\<close>

definition round_half_even :: "rat \<Rightarrow> int" where
  "round_half_even y =
     (let f = \<lfloor>y\<rfloor>; d = y - of_int f
      in if d < 1 / 2 then f else if 1 / 2 < d then f + 1 else if even f then f else f + 1)"

definition binade :: "rat \<Rightarrow> int" where
  "binade x = (if 1 \<le> x then bitlen \<lfloor>x\<rfloor> - 1 else - bitlen (\<lceil>1 / x\<rceil> - 1))"

definition round_float64 :: "rat \<Rightarrow> rat" where
  "round_float64 x =
     (if x = 0 then 0
      else let ulp = 2 powi (binade \<bar>x\<bar> - 52)
           in sgn x * of_int (round_half_even (\<bar>x\<bar> / ulp)) * ulp)"

text \<open>
  The conversion \<^verbatim>\<open>float64(n)\<close> of an integer, the product and the quotient of two
  \<open>float64\<close> values. The quotient is only taken with a divisor that is not zero.
\<close>

definition float64_of_int :: "int \<Rightarrow> rat" where
  "float64_of_int n = round_float64 (of_int n)"

definition float64_mul :: "rat \<Rightarrow> rat \<Rightarrow> rat" where
  "float64_mul x y = round_float64 (x * y)"

definition float64_div :: "rat \<Rightarrow> rat \<Rightarrow> rat" where
  "float64_div x y = round_float64 (x / y)"

section \<open>Aggregated statistics\<close>

text \<open>
  \<^verbatim>\<open>
  type AggregatedScan struct {
      Time              time.Time
      Source            string
      Attempted         int
      WithMXs           int
      MTASTSTesting     int
      MTASTSTestingList []string
      MTASTSEnforce     int
      MTASTSEnforceList []string
  }
  \<close>
  \<^verbatim>\<open>time.Time\<close> is a library type, the type parameter \<open>'t\<close>. Go's \<open>int\<close> is a signed
  integer of 32 or 64 bits, depending on the platform, whose arithmetic wraps around: the
  counters are words of a length \<open>'w\<close>, read as signed numbers by \<open>sint\<close>, and \<open>+\<close> on them
  wraps. What depends on the width says so through \<open>LENGTH('w)\<close>.
\<close>

record (overloaded) ('t, 'w) AggregatedScan =
  Time :: 't
  Source :: string
  Attempted :: "'w word"
  WithMXs :: "'w word"
  MTASTSTesting :: "'w word"
  MTASTSTestingList :: "string list"
  MTASTSEnforce :: "'w word"
  MTASTSEnforceList :: "string list"

text \<open>
  Modelled from the spec: the declarations of \<open>DomainResult\<close> and \<open>MTASTSResult\<close> are not
  among the sources. The specification gives a domain result the checked domain name, its
  host-level sub-results and an optional policy result carrying a \<open>Mode\<close>; \<open>HandleDomain\<close>
  reads \<^verbatim>\<open>r.Domain\<close>, \<^verbatim>\<open>len(r.HostnameResults)\<close>, whether \<^verbatim>\<open>r.MTASTSResult\<close> is nil, and
  \<^verbatim>\<open>r.MTASTSResult.Mode\<close>. The sub-results are a list of an arbitrary type \<open>'h\<close>, of which
  only the length is taken; the pointer to the policy result is an option.
\<close>

record MTASTSResult =
  Mode :: string

record 'h DomainResult =
  Domain' :: string
  HostnameResults :: "'h list"
  MTASTSResult :: "MTASTSResult option"

text \<open>
  \<^verbatim>\<open>
  func (a AggregatedScan) TotalMTASTS() int {
      return a.MTASTSTesting + a.MTASTSEnforce
  }
  \<close>
\<close>

definition TotalMTASTS :: "('t, 'w::len) AggregatedScan \<Rightarrow> 'w word" where
  "TotalMTASTS a = MTASTSTesting a + MTASTSEnforce a"

text \<open>
  \<^verbatim>\<open>
  func (a AggregatedScan) PercentMTASTS() float64 {
      if a.WithMXs == 0 {
          return 0
      }
      return 100 * float64(a.TotalMTASTS()) / float64(a.WithMXs)
  }
  \<close>
  The product is taken first and then the quotient, each rounded.
\<close>

definition PercentMTASTS :: "('t, 'w::len) AggregatedScan \<Rightarrow> rat" where
  "PercentMTASTS a =
     (if WithMXs a = 0 then 0
      else float64_div (float64_mul 100 (float64_of_int (sint (TotalMTASTS a))))
             (float64_of_int (sint (WithMXs a))))"

text \<open>
  \<^verbatim>\<open>
  func (a *AggregatedScan) HandleDomain(r DomainResult) {
      a.Attempted++
      if a.Attempted%1000 == 0 {
          log.Printf("\n%v\n", a)
          log.Println(a.MTASTSTestingList)
          log.Println(a.MTASTSEnforceList)
      }
      if len(r.HostnameResults) == 0 {
          return
      }
      a.WithMXs++
      if r.MTASTSResult != nil {
          switch r.MTASTSResult.Mode {
          case "enforce":
              a.MTASTSEnforce++
              a.MTASTSEnforceList = append(a.MTASTSEnforceList, r.Domain)
          case "testing":
              a.MTASTSTesting++
              a.MTASTSTestingList = append(a.MTASTSTestingList, r.Domain)
          }
      }
  }
  \<close>
  The method has two effects: it updates the receiver, which is \<open>HandleDomain\<close>, and it
  writes to the log, which is \<open>HandleDomain_log\<close>. Go's remainder truncates towards zero;
  it is zero exactly when the remainder of \<open>mod\<close> is.
\<close>

definition HandleDomain ::
  "('t, 'w::len) AggregatedScan \<Rightarrow> 'h DomainResult \<Rightarrow> ('t, 'w) AggregatedScan" where
  "HandleDomain a r =
     (let a1 = a\<lparr>Attempted := Attempted a + 1\<rparr> in
      if length (HostnameResults r) = 0 then a1
      else
        let a2 = a1\<lparr>WithMXs := WithMXs a1 + 1\<rparr> in
        case MTASTSResult r of
          None \<Rightarrow> a2
        | Some policy \<Rightarrow>
            if Mode policy = ''enforce'' then
              a2\<lparr>MTASTSEnforce := MTASTSEnforce a2 + 1,
                 MTASTSEnforceList := MTASTSEnforceList a2 @ [Domain' r]\<rparr>
            else if Mode policy = ''testing'' then
              a2\<lparr>MTASTSTesting := MTASTSTesting a2 + 1,
                 MTASTSTestingList := MTASTSTestingList a2 @ [Domain' r]\<rparr>
            else a2)"

datatype 'a log_line =
  Log_Printf 'a
| Log_Println "string list"

definition HandleDomain_log ::
  "('t, 'w::len) AggregatedScan \<Rightarrow> 'h DomainResult \<Rightarrow>
     ('t, 'w) AggregatedScan log_line list" where
  "HandleDomain_log a r =
     (let a1 = a\<lparr>Attempted := Attempted a + 1\<rparr> in
      if sint (Attempted a1) mod 1000 = 0 then
        [Log_Printf a1, Log_Println (MTASTSTestingList a1), Log_Println (MTASTSEnforceList a1)]
      else [])"

text \<open>
  The sink receives the results one at a time: the state after a sequence of results
  is the fold of \<open>HandleDomain\<close> over it. A fresh scan has its counters at zero and its lists
  empty.
\<close>

definition handle_all ::
  "('t, 'w::len) AggregatedScan \<Rightarrow> 'h DomainResult list \<Rightarrow> ('t, 'w) AggregatedScan" where
  "handle_all a rs = foldl HandleDomain a rs"

definition fresh_scan :: "'t \<Rightarrow> string \<Rightarrow> ('t, 'w::len) AggregatedScan" where
  "fresh_scan t src =
     \<lparr>Time = t, Source = src, Attempted = 0, WithMXs = 0, MTASTSTesting = 0,
      MTASTSTestingList = [], MTASTSEnforce = 0, MTASTSEnforceList = []\<rparr>"

text \<open>
  The results that \<open>HandleDomain\<close> counts in \<open>WithMXs\<close>, and those it counts under a mode.
\<close>

definition has_mxs :: "'h DomainResult \<Rightarrow> bool" where
  "has_mxs r = (length (HostnameResults r) \<noteq> 0)"

definition has_mode :: "string \<Rightarrow> 'h DomainResult \<Rightarrow> bool" where
  "has_mode m r =
     (has_mxs r \<and> (case MTASTSResult r of None \<Rightarrow> False | Some policy \<Rightarrow> Mode policy = m))"

section \<open>The producer of the batch pipeline\<close>

text \<open>
  \<^verbatim>\<open>
  go func() {
      for {
          data, err := domains.Read()
          if err != nil {
              if err != io.EOF {
                  log.Println("Error reading CSV")
                  log.Fatal(err)
              }
              break
          }
          if len(data) > 0 {
              work <- data[domainColumn]
          }
      }
      close(work)
  }()
  \<close>
  The reader belongs to Go's library. It is modelled by the outcomes of its successive
  \<open>Read\<close> calls: a record, an error other than end of input, or end of input; a reader
  whose outcomes are used up is at the end of its input. The producer is the only sender
  on \<open>work\<close>, so the identifiers it sends, in order, and the way it ends are a function of
  these outcomes: it closes the channel, or \<^verbatim>\<open>log.Fatal\<close> ends the process, or the index
  expression panics because \<open>domainColumn\<close> is not an index of the record.
\<close>

datatype read = Record "string list" | ReadError | EOF

datatype ending = Closed | Fatal | IndexOutOfRange

fun producer :: "int \<Rightarrow> read list \<Rightarrow> string list \<times> ending" where
  "producer domainColumn [] = ([], Closed)"
| "producer domainColumn (EOF # reads) = ([], Closed)"
| "producer domainColumn (ReadError # reads) = ([], Fatal)"
| "producer domainColumn (Record data # reads) =
     (if length data > 0 then
        if 0 \<le> domainColumn \<and> domainColumn < int (length data) then
          (let (sent, e) = producer domainColumn reads
           in (data ! nat domainColumn # sent, e))
        else ([], IndexOutOfRange)
      else producer domainColumn reads)"

section \<open>The batch pipeline\<close>

text \<open>
  \<^verbatim>\<open>
  func (c *Checker) CheckCSV(domains *csv.Reader, resultHandler ResultHandler, domainColumn int) {
      poolSize, err := strconv.Atoi(os.Getenv("CONNECTION_POOL_SIZE"))
      if err != nil || poolSize <= 0 {
          poolSize = defaultPoolSize
      }
      work := make(chan string)
      results := make(chan DomainResult)
      go func() { ... close(work) }()
      done := make(chan struct{})
      for i := 0; i < poolSize; i++ {
          go func() {
              for domain := range work {
                  results <- c.CheckDomain(domain, nil)
              }
              done <- struct{}{}
          }()
      }
      go func() {
          for i := 0; i < poolSize; i++ {
              <-done
          }
          close(results)
      }()
      for r := range results {
          resultHandler.HandleDomain(r)
      }
  }
  \<close>
  The outcome of \<^verbatim>\<open>strconv.Atoi\<close> on the environment variable is an option, \<open>None\<close> for an
  error.
\<close>

definition defaultPoolSize :: nat where
  "defaultPoolSize = 16"

definition poolSize :: "int option \<Rightarrow> nat" where
  "poolSize atoi =
     (case atoi of
        None \<Rightarrow> defaultPoolSize
      | Some n \<Rightarrow> if n \<le> 0 then defaultPoolSize else nat n)"

text \<open>
  The goroutines run concurrently and meet on three channels without buffer, so that a
  send and its receive are one step. The state of the pipeline holds where each goroutine
  stands:
  \<^item> the producer is reading, with the outcomes of the reader still to come, or it has
    ended: by closing \<open>work\<close>, by \<^verbatim>\<open>log.Fatal\<close> or by the panic of the index expression, of
    which the last two end the whole process;
  \<^item> a worker is \<open>Idle\<close> at the head of its loop, waiting to receive from \<open>work\<close>; or it
    is \<open>Checking\<close> a domain, inside \<open>CheckDomain\<close>; or it is \<open>Sending\<close> the result on
    \<open>results\<close>; or it has left the loop and is \<open>Signalling\<close> on \<open>done\<close>; or it is \<open>Finished\<close>;
  \<^item> the closing goroutine is \<open>Waiting\<close> for a number of signals on \<open>done\<close>, or it has
    closed \<open>results\<close>;
  \<^item> the caller is \<open>Ranging\<close> over \<open>results\<close>, or its loop has ended and \<open>CheckCSV\<close> has
    \<open>Returned\<close>.
  \<open>handled\<close> lists the results passed to \<open>resultHandler.HandleDomain\<close>, in order, and
  \<open>closes\<close> counts the executions of \<^verbatim>\<open>close(results)\<close>. \<open>CheckDomain\<close> is a parameter, a
  function that returns for every domain.
\<close>

datatype producer_state = Reading "read list" | Ended ending

datatype 'r worker = Idle | Checking string | Sending 'r | Signalling | Finished

datatype closer = Waiting nat | Closed_results

datatype consumer = Ranging | Returned

record 'r pipeline =
  producer_at :: producer_state
  workers :: "'r worker list"
  closer_at :: closer
  closes :: nat
  consumer_at :: consumer
  handled :: "'r list"

definition CheckCSV_start :: "nat \<Rightarrow> read list \<Rightarrow> 'r pipeline" where
  "CheckCSV_start n reads =
     \<lparr>producer_at = Reading reads, workers = replicate n Idle, closer_at = Waiting n,
      closes = 0, consumer_at = Ranging, handled = []\<rparr>"

definition alive :: "'r pipeline \<Rightarrow> bool" where
  "alive s = (producer_at s \<noteq> Ended Fatal \<and> producer_at s \<noteq> Ended IndexOutOfRange)"

text \<open>
  One step of one goroutine, or of two that meet on a channel. The first six rules are
  the producer's, as in \<open>producer\<close>: it skips an empty record; it sends the selected field
  to an idle worker; the index expression panics; the reader fails; it closes \<open>work\<close> at
  the end of the input. Then a worker returns from \<open>CheckDomain\<close>; it hands its result to
  the caller, who passes it to the handler; it finds \<open>work\<close> closed and leaves its loop;
  it signals on \<open>done\<close> to the closing goroutine. Last, the closing goroutine has received
  all its signals and closes \<open>results\<close>, and the caller finds \<open>results\<close> closed.
\<close>

inductive step :: "int \<Rightarrow> (string \<Rightarrow> 'r) \<Rightarrow> 'r pipeline \<Rightarrow> 'r pipeline \<Rightarrow> bool"
  for domainColumn :: int and CheckDomain :: "string \<Rightarrow> 'r"
where
  read_empty:
    "producer_at s = Reading (Record data # reads) \<Longrightarrow> length data = 0 \<Longrightarrow>
     step domainColumn CheckDomain s (s\<lparr>producer_at := Reading reads\<rparr>)"
| send_work:
    "producer_at s = Reading (Record data # reads) \<Longrightarrow> length data > 0 \<Longrightarrow>
     0 \<le> domainColumn \<Longrightarrow> domainColumn < int (length data) \<Longrightarrow>
     i < length (workers s) \<Longrightarrow> workers s ! i = Idle \<Longrightarrow>
     step domainColumn CheckDomain s
       (s\<lparr>producer_at := Reading reads,
          workers := (workers s)[i := Checking (data ! nat domainColumn)]\<rparr>)"
| index_panic:
    "producer_at s = Reading (Record data # reads) \<Longrightarrow> length data > 0 \<Longrightarrow>
     \<not> (0 \<le> domainColumn \<and> domainColumn < int (length data)) \<Longrightarrow>
     step domainColumn CheckDomain s (s\<lparr>producer_at := Ended IndexOutOfRange\<rparr>)"
| read_error:
    "producer_at s = Reading (ReadError # reads) \<Longrightarrow>
     step domainColumn CheckDomain s (s\<lparr>producer_at := Ended Fatal\<rparr>)"
| close_work_exhausted:
    "producer_at s = Reading [] \<Longrightarrow>
     step domainColumn CheckDomain s (s\<lparr>producer_at := Ended Closed\<rparr>)"
| close_work:
    "producer_at s = Reading (EOF # reads) \<Longrightarrow>
     step domainColumn CheckDomain s (s\<lparr>producer_at := Ended Closed\<rparr>)"
| check:
    "alive s \<Longrightarrow> i < length (workers s) \<Longrightarrow> workers s ! i = Checking domain \<Longrightarrow>
     step domainColumn CheckDomain s
       (s\<lparr>workers := (workers s)[i := Sending (CheckDomain domain)]\<rparr>)"
| send_result:
    "alive s \<Longrightarrow> i < length (workers s) \<Longrightarrow> workers s ! i = Sending r \<Longrightarrow>
     consumer_at s = Ranging \<Longrightarrow>
     step domainColumn CheckDomain s
       (s\<lparr>workers := (workers s)[i := Idle], handled := handled s @ [r]\<rparr>)"
| work_closed:
    "alive s \<Longrightarrow> i < length (workers s) \<Longrightarrow> workers s ! i = Idle \<Longrightarrow>
     producer_at s = Ended Closed \<Longrightarrow>
     step domainColumn CheckDomain s (s\<lparr>workers := (workers s)[i := Signalling]\<rparr>)"
| send_done:
    "alive s \<Longrightarrow> i < length (workers s) \<Longrightarrow> workers s ! i = Signalling \<Longrightarrow>
     closer_at s = Waiting (Suc k) \<Longrightarrow>
     step domainColumn CheckDomain s
       (s\<lparr>workers := (workers s)[i := Finished], closer_at := Waiting k\<rparr>)"
| close_results:
    "alive s \<Longrightarrow> closer_at s = Waiting 0 \<Longrightarrow>
     step domainColumn CheckDomain s
       (s\<lparr>closer_at := Closed_results, closes := closes s + 1\<rparr>)"
| range_ends:
    "alive s \<Longrightarrow> consumer_at s = Ranging \<Longrightarrow> closer_at s = Closed_results \<Longrightarrow>
     step domainColumn CheckDomain s (s\<lparr>consumer_at := Returned\<rparr>)"

text \<open>
  The results still to come in a state: those of the identifiers that the producer has
  yet to send, and those that the workers are computing or holding.
\<close>

fun in_flight :: "(string \<Rightarrow> 'r) \<Rightarrow> 'r worker \<Rightarrow> 'r multiset" where
  "in_flight CheckDomain (Checking domain) = {#CheckDomain domain#}"
| "in_flight CheckDomain (Sending r) = {#r#}"
| "in_flight CheckDomain w = {#}"

definition outstanding :: "int \<Rightarrow> (string \<Rightarrow> 'r) \<Rightarrow> 'r pipeline \<Rightarrow> 'r multiset" where
  "outstanding domainColumn CheckDomain s =
     (case producer_at s of
        Reading reads \<Rightarrow> mset (map CheckDomain (fst (producer domainColumn reads)))
      | Ended e \<Rightarrow> {#})
     + sum_list (map (in_flight CheckDomain) (workers s))"

text \<open>The way the producer ends, from where it stands.\<close>

definition outcome :: "int \<Rightarrow> producer_state \<Rightarrow> ending" where
  "outcome domainColumn p =
     (case p of Reading reads \<Rightarrow> snd (producer domainColumn reads) | Ended e \<Rightarrow> e)"

text \<open>The number of workers that have not finished, each owing one signal on \<open>done\<close>.\<close>

fun owes_done :: "'r worker \<Rightarrow> nat" where
  "owes_done Finished = 0"
| "owes_done w = 1"

definition unfinished :: "'r worker list \<Rightarrow> nat" where
  "unfinished ws = sum_list (map owes_done ws)"

fun left_work :: "'r worker \<Rightarrow> bool" where
  "left_work Signalling = True"
| "left_work Finished = True"
| "left_work w = False"

fun waits_for :: "closer \<Rightarrow> nat" where
  "waits_for (Waiting k) = k"
| "waits_for Closed_results = 0"

fun closed_times :: "closer \<Rightarrow> nat" where
  "closed_times (Waiting k) = 0"
| "closed_times Closed_results = 1"

text \<open>What holds in every state that the pipeline reaches from its start.\<close>

definition consistent ::
  "nat \<Rightarrow> int \<Rightarrow> (string \<Rightarrow> 'r) \<Rightarrow> read list \<Rightarrow> 'r pipeline \<Rightarrow> bool" where
  "consistent n domainColumn CheckDomain reads s \<longleftrightarrow>
     mset (handled s) + outstanding domainColumn CheckDomain s =
       mset (map CheckDomain (fst (producer domainColumn reads)))
     \<and> outcome domainColumn (producer_at s) = snd (producer domainColumn reads)
     \<and> length (workers s) = n
     \<and> waits_for (closer_at s) = unfinished (workers s)
     \<and> closes s = closed_times (closer_at s)
     \<and> (filter left_work (workers s) = [] \<or> producer_at s = Ended Closed)
     \<and> (consumer_at s = Ranging \<or> closer_at s = Closed_results)"

text \<open>A bound on the number of steps that a state can still take.\<close>

fun worker_steps :: "'r worker \<Rightarrow> nat" where
  "worker_steps Finished = 0"
| "worker_steps Signalling = 1"
| "worker_steps Idle = 2"
| "worker_steps (Sending r) = 3"
| "worker_steps (Checking domain) = 4"

definition steps_left :: "'r pipeline \<Rightarrow> nat" where
  "steps_left s =
     (case producer_at s of Reading reads \<Rightarrow> 3 * length reads + 1 | Ended e \<Rightarrow> 0)
     + sum_list (map worker_steps (workers s))
     + (case closer_at s of Waiting k \<Rightarrow> k + 1 | Closed_results \<Rightarrow> 0)
     + (case consumer_at s of Ranging \<Rightarrow> 1 | Returned \<Rightarrow> 0)"

section \<open>Example inputs\<close>

text \<open>
  A formatter that returns its format string, for calls without arguments and without
  verbs in the format.
\<close>

definition plain_Sprintf :: "string \<Rightarrow> unit list \<Rightarrow> string" where
  "plain_Sprintf format a = format"

definition error_child :: Result where
  "error_child = Result_Error plain_Sprintf (MakeResult ''starttls'') ''no STARTTLS'' []"

definition success_child :: Result where
  "success_child = Result_Success (MakeResult ''starttls'')"

definition failure_child :: Result where
  "failure_child = Result_Failure plain_Sprintf (MakeResult ''certificate'') ''expired'' []"

definition overwriting_calls :: "unit invocation list" where
  "overwriting_calls = [Call_addCheck error_child, Call_addCheck success_child]"

definition distinct_calls :: "unit invocation list" where
  "distinct_calls = [Call_Warning ''slow'' [], Call_addCheck success_child,
     Call_addCheck failure_child]"

definition no_mx_result :: "unit DomainResult" where
  "no_mx_result = \<lparr>Domain' = ''a.example'', HostnameResults = [], MTASTSResult = None\<rparr>"

definition enforce_result :: "unit DomainResult" where
  "enforce_result = \<lparr>Domain' = ''b.example'', HostnameResults = [()],
     MTASTSResult = Some \<lparr>Mode = ''enforce''\<rparr>\<rparr>"

definition testing_result :: "unit DomainResult" where
  "testing_result = \<lparr>Domain' = ''c.example'', HostnameResults = [()],
     MTASTSResult = Some \<lparr>Mode = ''testing''\<rparr>\<rparr>"

definition none_result :: "unit DomainResult" where
  "none_result = \<lparr>Domain' = ''d.example'', HostnameResults = [()],
     MTASTSResult = Some \<lparr>Mode = ''none''\<rparr>\<rparr>"

definition no_policy_result :: "unit DomainResult" where
  "no_policy_result = \<lparr>Domain' = ''e.example'', HostnameResults = [()],
     MTASTSResult = None\<rparr>"

text \<open>Scans on a platform whose \<open>int\<close> has 64 bits, and a fresh one where it has 32.\<close>

definition local_scan :: "(unit, 64) AggregatedScan" where
  "local_scan = fresh_scan () ''LOCAL''"

definition local_scan32 :: "(unit, 32) AggregatedScan" where
  "local_scan32 = fresh_scan () ''LOCAL''"

definition half_scan :: "(unit, 64) AggregatedScan" where
  "half_scan =
     \<lparr>Time = (), Source = ''LOCAL'', Attempted = 5, WithMXs = 4, MTASTSTesting = 1,
      MTASTSTestingList = [''c.example''], MTASTSEnforce = 1,
      MTASTSEnforceList = [''b.example'']\<rparr>"

definition third_scan :: "(unit, 64) AggregatedScan" where
  "third_scan =
     \<lparr>Time = (), Source = ''LOCAL'', Attempted = 3, WithMXs = 3, MTASTSTesting = 0,
      MTASTSTestingList = [], MTASTSEnforce = 1, MTASTSEnforceList = [''b.example'']\<rparr>"

definition full_scan :: "(unit, 64) AggregatedScan" where
  "full_scan =
     \<lparr>Time = (), Source = ''LOCAL'', Attempted = 2, WithMXs = 2, MTASTSTesting = 1,
      MTASTSTestingList = [''c.example''], MTASTSEnforce = 1,
      MTASTSEnforceList = [''b.example'']\<rparr>"

definition five_results :: "unit DomainResult list" where
  "five_results =
     [no_mx_result, enforce_result, testing_result, none_result, no_policy_result]"

text \<open>
  A run of the pipeline with two workers over a file of three records, the second of
  them empty, and a check that finds one host and no policy for every domain.
\<close>

definition example_check :: "string \<Rightarrow> unit DomainResult" where
  "example_check domain =
     \<lparr>Domain' = domain, HostnameResults = [()], MTASTSResult = None\<rparr>"

definition example_reads :: "read list" where
  "example_reads = [Record [''example.com''], Record [], Record [''example.org''], EOF]"

definition example_end :: "unit DomainResult pipeline" where
  "example_end =
     \<lparr>producer_at = Ended Closed, workers = [Finished, Finished],
      closer_at = Closed_results, closes = 1, consumer_at = Returned,
      handled = [example_check ''example.org'', example_check ''example.com'']\<rparr>"

section \<open>Properties of the status combination\<close>

lemma SetStatus_sint: "sint (SetStatus a b) = max (sint a) (sint b)"
  by (simp add: SetStatus_def word_sless_alt max_def)

lemma SetStatus_assoc: "SetStatus (SetStatus a b) c = SetStatus a (SetStatus b c)"
  by (auto simp add: SetStatus_def word_sless_alt)

lemma SetStatus_idem: "SetStatus a a = a"
  by (simp add: SetStatus_def)

text \<open>
  Claim C1. \<open>SetStatus\<close> returns the new status when it is strictly more severe than the old
  one, and the old status otherwise; the order is the signed order of the underlying
  integers, in which Success < Warning < Failure < Error. The result is the maximum of
  the two under this order, so the operation is associative and idempotent, and
  \<open>SetStatus Success Warning = Warning\<close>, \<open>SetStatus Failure Success = Failure\<close>,
  \<open>SetStatus Error Error = Error\<close>.
\<close>

theorem SetStatus_is_max:
  "SetStatus old new = (if sint old < sint new then new else old)
   \<and> sint (SetStatus old new) = max (sint old) (sint new)
   \<and> sint Success < sint Warning \<and> sint Warning < sint Failure \<and> sint Failure < sint Error
   \<and> SetStatus (SetStatus a b) c = SetStatus a (SetStatus b c)
   \<and> SetStatus a a = a
   \<and> SetStatus Success Warning = Warning
   \<and> SetStatus Failure Success = Failure
   \<and> SetStatus Error Error = Error"
proof -
  have cases: "SetStatus old new = (if sint old < sint new then new else old)"
    by (simp add: SetStatus_def word_sless_alt)
  have order: "sint Success < sint Warning \<and> sint Warning < sint Failure
      \<and> sint Failure < sint Error"
    by (simp add: Success_def Warning_def Failure_def Error_def)
  have examples: "SetStatus Success Warning = Warning \<and> SetStatus Failure Success = Failure
      \<and> SetStatus Error Error = Error"
    by (simp add: SetStatus_def word_sless_alt Success_def Warning_def Failure_def Error_def)
  from cases order examples SetStatus_sint [of old new] SetStatus_assoc [of a b c]
    SetStatus_idem [of a]
  show ?thesis
    by (intro conjI) (elim conjE, assumption)+
qed

section \<open>Properties of results\<close>

lemma Result_Error_sel:
  "Name (Result_Error Sprintf r format a) = Name r"
  "Status (Result_Error Sprintf r format a) = SetStatus (Status r) Error"
  "Messages (Result_Error Sprintf r format a) = Messages r @ [Sprintf (''Error: '' @ format) a]"
  "Checks (Result_Error Sprintf r format a) = Checks r"
  by (simp_all add: Result_Error_def)

lemma Result_Failure_sel:
  "Name (Result_Failure Sprintf r format a) = Name r"
  "Status (Result_Failure Sprintf r format a) = SetStatus (Status r) Failure"
  "Messages (Result_Failure Sprintf r format a) =
     Messages r @ [Sprintf (''Failure: '' @ format) a]"
  "Checks (Result_Failure Sprintf r format a) = Checks r"
  by (simp_all add: Result_Failure_def)

lemma Result_Warning_sel:
  "Name (Result_Warning Sprintf r format a) = Name r"
  "Status (Result_Warning Sprintf r format a) = SetStatus (Status r) Warning"
  "Messages (Result_Warning Sprintf r format a) =
     Messages r @ [Sprintf (''Warning: '' @ format) a]"
  "Checks (Result_Warning Sprintf r format a) = Checks r"
  by (simp_all add: Result_Warning_def)

lemma Result_Success_sel:
  "Name (Result_Success r) = Name r"
  "Status (Result_Success r) = SetStatus (Status r) Success"
  "Messages (Result_Success r) = Messages r"
  "Checks (Result_Success r) = Checks r"
  by (simp_all add: Result_Success_def)

lemma addCheck_sel:
  "Name (addCheck r c) = Name r"
  "Status (addCheck r c) = SetStatus (Status r) (Status c)"
  "Messages (addCheck r c) = Messages r"
  "Checks (addCheck r c) = (Checks r)(Name c \<mapsto> c)"
  by (simp_all add: addCheck_def)

lemma SetStatus_ge: "sint old \<le> sint (SetStatus old new)"
  by (simp add: SetStatus_sint)

lemma example_children:
  "error_child = Result ''starttls'' Error [''Error: no STARTTLS''] Map.empty"
  "success_child = Result ''starttls'' Success [] Map.empty"
  "failure_child = Result ''certificate'' Failure [''Failure: expired''] Map.empty"
  by (simp_all add: error_child_def success_child_def failure_child_def Result_Error_def
      Result_Success_def Result_Failure_def MakeResult_def plain_Sprintf_def SetStatus_def
      word_sless_alt Success_def Failure_def Error_def)

subsection \<open>The status after a sequence of calls\<close>

lemma Status_invoke: "Status (invoke Sprintf r c) = SetStatus (Status r) (passed c)"
  by (cases c)
    (simp_all add: Result_Error_sel Result_Failure_sel Result_Warning_sel Result_Success_sel
      addCheck_sel)

lemma Status_invoke_all:
  "Status (invoke_all Sprintf r cs) = foldl SetStatus (Status r) (map passed cs)"
  unfolding invoke_all_def
  by (induction cs arbitrary: r) (simp_all add: Status_invoke)

lemma Max_insert_max:
  "finite A \<Longrightarrow> Max (insert (max a b) A) = Max (insert (a::int) (insert b A))"
  by (cases "A = {}") (simp_all add: max.assoc)

lemma sint_foldl_SetStatus:
  "sint (foldl SetStatus s xs) = Max (insert (sint s) (sint ` set xs))"
proof (induction xs arbitrary: s)
  case Nil
  show ?case by simp
next
  case (Cons x xs)
  have "sint (foldl SetStatus s (x # xs)) =
      Max (insert (max (sint s) (sint x)) (sint ` set xs))"
    by (simp add: Cons.IH SetStatus_sint)
  also have "\<dots> = Max (insert (sint s) (insert (sint x) (sint ` set xs)))"
    by (rule Max_insert_max) simp
  finally show ?case by simp
qed

lemma set_passed: "set (map passed cs) = set (reported cs) \<union> Status ` set (attached cs)"
  by (induction cs rule: reported.induct) auto

lemma Status_after_calls:
  "sint (Status (invoke_all Sprintf (MakeResult name) cs)) =
     Max (code_severities (reported cs) (attached cs))"
proof -
  have "sint (Status (invoke_all Sprintf (MakeResult name) cs)) =
      Max (insert (sint Success) (sint ` set (map passed cs)))"
    by (simp add: Status_invoke_all sint_foldl_SetStatus MakeResult_def)
  also have "insert (sint Success) (sint ` set (map passed cs)) =
      code_severities (reported cs) (attached cs)"
    unfolding set_passed code_severities_def by blast
  finally show ?thesis .
qed

subsection \<open>The children after a sequence of calls\<close>

lemma Checks_invoke_all:
  "Checks (invoke_all Sprintf r cs) = children_after (Checks r) (attached cs)"
  unfolding invoke_all_def
  by (induction cs arbitrary: r rule: attached.induct)
    (simp_all add: Result_Error_def Result_Failure_def Result_Warning_def Result_Success_def
      addCheck_def)

lemma children_after_other:
  "k \<notin> Name ` set xs \<Longrightarrow> children_after m xs k = m k"
  by (induction xs arbitrary: m) simp_all

lemma never_attached:
  "x \<notin> Name ` set (attached cs) \<Longrightarrow> Checks (invoke_all Sprintf (MakeResult name) cs) x = None"
  by (simp add: Checks_invoke_all children_after_other MakeResult_def)

lemma Messages_invoke_all:
  "Messages (invoke_all Sprintf r cs) = Messages r @ appended Sprintf cs"
  unfolding invoke_all_def
  by (induction Sprintf cs arbitrary: r rule: appended.induct)
    (simp_all add: Result_Error_sel Result_Failure_sel Result_Warning_sel Result_Success_sel
      addCheck_sel)

subsection \<open>The status invariant\<close>

text \<open>
  As the specification states it, the invariant fails once a child is overwritten: after
  attaching a child named \<open>starttls\<close> with status Error and then a child of the same name
  with status Success to a fresh result, the status is Error, while nothing was reported
  directly and the only child present has status Success.
\<close>

theorem Status_overwritten_child_counterexample:
  "sint (Status (invoke_all plain_Sprintf (MakeResult ''example.com'') overwriting_calls))
     \<noteq> Max (spec_severities (reported overwriting_calls)
          (invoke_all plain_Sprintf (MakeResult ''example.com'') overwriting_calls))"
  by (simp add: invoke_all_def overwriting_calls_def MakeResult_def addCheck_def
      example_children SetStatus_def Success_def Error_def word_sless_alt
      spec_severities_def)

text \<open>
  Claim C2, amended. For every result built from a fresh \<open>MakeResult\<close> by a sequence of
  calls of Error, Failure, Warning, Success and addCheck, the status is the maximum
  severity among Success, the levels reported directly on it and the status that each
  attached child had at the moment of its attachment. Whether the child is still in
  \<open>Checks\<close> or a later child of the same name has replaced it, and what has been reported
  on the child since, make no difference: the status is only ever raised, by the calls on
  the result itself.
\<close>

theorem Status_is_max_of_reported_and_attached:
  "sint (Status (invoke_all Sprintf (MakeResult name) cs)) =
     Max (code_severities (reported cs) (attached cs))"
  by (rule Status_after_calls)

theorem Status_is_max_of_reported_and_attached_witness:
  "sint (Status (invoke_all plain_Sprintf (MakeResult ''example.com'') overwriting_calls)) =
     Max (code_severities (reported overwriting_calls) (attached overwriting_calls))
   \<and> Max (code_severities (reported overwriting_calls) (attached overwriting_calls)) = 3
   \<and> sint (Status (invoke_all plain_Sprintf (MakeResult ''example.com'') distinct_calls)) =
     Max (code_severities (reported distinct_calls) (attached distinct_calls))
   \<and> Max (code_severities (reported distinct_calls) (attached distinct_calls)) = 2"
proof -
  have "Max (code_severities (reported overwriting_calls) (attached overwriting_calls)) = 3"
    by (simp add: code_severities_def overwriting_calls_def example_children Success_def
        Error_def)
  moreover
  have "Max (code_severities (reported distinct_calls) (attached distinct_calls)) = 2"
    by (simp add: code_severities_def distinct_calls_def example_children Success_def
        Warning_def Failure_def)
  ultimately show ?thesis
    using Status_is_max_of_reported_and_attached
        [of plain_Sprintf "''example.com''" overwriting_calls]
      Status_is_max_of_reported_and_attached
        [of plain_Sprintf "''example.com''" distinct_calls]
    by simp
qed

subsection \<open>Attaching a child\<close>

text \<open>
  Claim C5. \<open>addCheck\<close> stores the child under its name in the parent's \<open>Checks\<close>, replacing
  any child of that name and leaving the other names as they are, and sets the parent's
  status to \<open>SetStatus\<close> of the parent's and the child's status. The parent's status
  therefore never decreases: attaching a child with status Error to a parent with status
  Success gives the parent status Error, and attaching a child with status Success
  afterwards, under another name or under the name of the Error child, leaves it Error.
\<close>

theorem addCheck_overwrites_and_escalates:
  "Checks (addCheck r c) k = (if k = Name c then Some c else Checks r k)
   \<and> Status (addCheck r c) = SetStatus (Status r) (Status c)
   \<and> Name (addCheck r c) = Name r
   \<and> Messages (addCheck r c) = Messages r
   \<and> sint (Status r) \<le> sint (Status (addCheck r c))
   \<and> Status (addCheck (Result n Success ms cs) (Result k1 Error ms1 cs1)) = Error
   \<and> Status (addCheck (addCheck (Result n Success ms cs) (Result k1 Error ms1 cs1))
        (Result k2 Success ms2 cs2)) = Error
   \<and> Status (addCheck (addCheck (Result n Success ms cs) (Result k1 Error ms1 cs1))
        (Result k1 Success ms2 cs2)) = Error
   \<and> Checks (addCheck (addCheck (Result n Success ms cs) (Result k1 Error ms1 cs1))
        (Result k1 Success ms2 cs2)) k1 = Some (Result k1 Success ms2 cs2)"
proof -
  have ex: "SetStatus Success Error = Error" "SetStatus Error Success = Error"
    by (simp_all add: SetStatus_def word_sless_alt Success_def Error_def)
  show ?thesis
    by (simp add: addCheck_sel SetStatus_ge ex)
qed

subsection \<open>Reporting on a result\<close>

text \<open>
  As the specification states it, every reporting operation appends one message. The
  method \<open>Success\<close> takes no message and appends none: after the call on a fresh
  result the list of messages is still empty.
\<close>

theorem Success_appends_no_message_counterexample:
  "length (Messages (Result_Success (MakeResult ''example.com'')))
     \<noteq> length (Messages (MakeResult ''example.com'')) + 1"
  by (simp add: Result_Success_def MakeResult_def)

text \<open>
  Claim C6, amended. Each of Error, Failure and Warning appends exactly one message to
  \<open>Messages\<close>, the text formatted from the format string prefixed with \<open>Error: \<close>,
  \<open>Failure: \<close> or \<open>Warning: \<close>, and leaves the earlier messages as they are; Success
  appends nothing and leaves \<open>Messages\<close> unchanged. Each of the four sets the status to
  \<open>SetStatus\<close> of the current status and its own level. The list is therefore only
  appended to: after any sequence of calls it is the list before them followed by one
  message for each call of Error, Failure or Warning, in the order of the calls.
\<close>

theorem report_appends_message_and_combines_status:
  "Messages (Result_Error Sprintf r format a) = Messages r @ [Sprintf (''Error: '' @ format) a]
   \<and> Status (Result_Error Sprintf r format a) = SetStatus (Status r) Error
   \<and> Messages (Result_Failure Sprintf r format a) =
       Messages r @ [Sprintf (''Failure: '' @ format) a]
   \<and> Status (Result_Failure Sprintf r format a) = SetStatus (Status r) Failure
   \<and> Messages (Result_Warning Sprintf r format a) =
       Messages r @ [Sprintf (''Warning: '' @ format) a]
   \<and> Status (Result_Warning Sprintf r format a) = SetStatus (Status r) Warning
   \<and> Messages (Result_Success r) = Messages r
   \<and> Status (Result_Success r) = SetStatus (Status r) Success
   \<and> Messages (invoke_all Sprintf r cs) = Messages r @ appended Sprintf cs"
proof -
  have single: "Messages (Result_Error Sprintf r format a) =
        Messages r @ [Sprintf (''Error: '' @ format) a]
      \<and> Status (Result_Error Sprintf r format a) = SetStatus (Status r) Error
      \<and> Messages (Result_Failure Sprintf r format a) =
        Messages r @ [Sprintf (''Failure: '' @ format) a]
      \<and> Status (Result_Failure Sprintf r format a) = SetStatus (Status r) Failure
      \<and> Messages (Result_Warning Sprintf r format a) =
        Messages r @ [Sprintf (''Warning: '' @ format) a]
      \<and> Status (Result_Warning Sprintf r format a) = SetStatus (Status r) Warning
      \<and> Messages (Result_Success r) = Messages r
      \<and> Status (Result_Success r) = SetStatus (Status r) Success"
    by (simp add: Result_Error_sel Result_Failure_sel Result_Warning_sel Result_Success_sel)
  have "Messages (invoke_all Sprintf r cs) = Messages r @ appended Sprintf cs"
    by (rule Messages_invoke_all)
  with single show ?thesis
    by simp
qed

subsection \<open>Asking whether a sub-check succeeded\<close>

text \<open>
  Claim C8. \<open>subcheckSucceeded r x\<close> is true exactly when \<open>Checks r\<close> holds a child under
  the name \<open>x\<close> and that child's status is Success. It is false on a fresh result and on
  every result built from one by calls that never attached a child named \<open>x\<close>; after a
  child is attached it is, for that child's name, true exactly when the child's status is
  Success, and for every other name what it was before.
\<close>

theorem subcheckSucceeded_iff_present_with_Success:
  "subcheckSucceeded r x = (\<exists>c. Checks r x = Some c \<and> Status c = Success)
   \<and> subcheckSucceeded (MakeResult name) x = False
   \<and> (x \<notin> Name ` set (attached cs) \<longrightarrow>
        subcheckSucceeded (invoke_all Sprintf (MakeResult name) cs) x = False)
   \<and> subcheckSucceeded (addCheck r c) x =
       (if x = Name c then Status c = Success else subcheckSucceeded r x)"
proof -
  have "subcheckSucceeded r x = (\<exists>c. Checks r x = Some c \<and> Status c = Success)"
    by (simp add: subcheckSucceeded_def split: option.splits)
  moreover have "subcheckSucceeded (MakeResult name) x = False"
    by (simp add: subcheckSucceeded_def MakeResult_def)
  moreover have "x \<notin> Name ` set (attached cs) \<longrightarrow>
      subcheckSucceeded (invoke_all Sprintf (MakeResult name) cs) x = False"
    by (simp add: subcheckSucceeded_def never_attached)
  moreover have "subcheckSucceeded (addCheck r c) x =
      (if x = Name c then Status c = Success else subcheckSucceeded r x)"
    by (simp add: subcheckSucceeded_def addCheck_sel)
  ultimately show ?thesis
    by (intro conjI)
qed

theorem subcheckSucceeded_iff_present_with_Success_witness:
  "''connectivity'' \<notin> Name ` set (attached distinct_calls)
   \<and> subcheckSucceeded (invoke_all plain_Sprintf (MakeResult ''example.com'') distinct_calls)
        ''connectivity'' = False
   \<and> subcheckSucceeded (addCheck (MakeResult ''example.com'') failure_child) ''certificate''
       = False
   \<and> subcheckSucceeded (addCheck (MakeResult ''example.com'') success_child) ''starttls''
       = True"
proof -
  have n: "''connectivity'' \<notin> Name ` set (attached distinct_calls)"
    by (simp add: distinct_calls_def example_children)
  have f: "Name failure_child = ''certificate''" "Status failure_child \<noteq> Success"
    by (simp_all add: example_children Failure_def Success_def)
  have t: "Name success_child = ''starttls''" "Status success_child = Success"
    by (simp_all add: example_children)
  have c1: "subcheckSucceeded
      (invoke_all plain_Sprintf (MakeResult ''example.com'') distinct_calls)
      ''connectivity'' = False"
    using n subcheckSucceeded_iff_present_with_Success
      [of "MakeResult ''example.com''" "''connectivity''" "''example.com''" distinct_calls
        plain_Sprintf failure_child]
    by blast
  have c2: "subcheckSucceeded (addCheck (MakeResult ''example.com'') failure_child)
      ''certificate'' = False"
    using f subcheckSucceeded_iff_present_with_Success
      [of "MakeResult ''example.com''" "''certificate''" "''example.com''" distinct_calls
        plain_Sprintf failure_child]
    by simp
  have c3: "subcheckSucceeded (addCheck (MakeResult ''example.com'') success_child)
      ''starttls'' = True"
    using t subcheckSucceeded_iff_present_with_Success
      [of "MakeResult ''example.com''" "''starttls''" "''example.com''" distinct_calls
        plain_Sprintf success_child]
    by simp
  from n c1 c2 c3 show ?thesis
    by (intro conjI)
qed

section \<open>Properties of the rounding\<close>

lemma round_half_even_of_int: "round_half_even (of_int k) = k"
  by (simp add: round_half_even_def)

lemma round_half_even_le: "y \<le> of_int K \<Longrightarrow> round_half_even y \<le> K"
proof -
  assume le: "y \<le> of_int K"
  have "round_half_even y \<le> \<lceil>y\<rceil>"
  proof (cases "y = of_int \<lfloor>y\<rfloor>")
    case True
    then have "round_half_even y = \<lfloor>y\<rfloor>"
      by (simp add: round_half_even_def Let_def)
    then show ?thesis
      by (simp add: floor_le_ceiling)
  next
    case False
    then have "\<lceil>y\<rceil> = \<lfloor>y\<rfloor> + 1"
      by (metis ceiling_altdef)
    then show ?thesis
      by (simp add: round_half_even_def Let_def)
  qed
  also from le have "\<lceil>y\<rceil> \<le> K"
    by (simp add: ceiling_le_iff)
  finally show ?thesis .
qed

lemma round_half_even_nonneg: "0 \<le> y \<Longrightarrow> 0 \<le> round_half_even y"
proof -
  assume "0 \<le> y"
  then have "0 \<le> \<lfloor>y\<rfloor>"
    by simp
  then show ?thesis
    by (simp add: round_half_even_def Let_def)
qed

lemma binade_lower: "0 < x \<Longrightarrow> 2 powi binade x \<le> x"
proof (cases "1 \<le> x")
  case True
  then have pos: "0 < \<lfloor>x\<rfloor>"
    by simp
  then have b: "1 \<le> bitlen \<lfloor>x\<rfloor>"
    by (auto simp: bitlen_alt_def)
  from bitlen_bounds [OF pos] have "2 ^ nat (bitlen \<lfloor>x\<rfloor> - 1) \<le> \<lfloor>x\<rfloor>"
    by simp
  then have "rat_of_int (2 ^ nat (bitlen \<lfloor>x\<rfloor> - 1)) \<le> rat_of_int \<lfloor>x\<rfloor>"
    by (simp only: of_int_le_iff)
  also have "\<dots> \<le> x"
    by simp
  finally have "2 ^ nat (bitlen \<lfloor>x\<rfloor> - 1) \<le> x"
    by simp
  moreover have "(2::rat) powi (bitlen \<lfloor>x\<rfloor> - 1) = 2 ^ nat (bitlen \<lfloor>x\<rfloor> - 1)"
    using b by (simp add: power_int_def)
  ultimately show ?thesis
    using True by (simp add: binade_def)
next
  case False
  assume x: "0 < x"
  with False have x1: "x < 1"
    by simp
  let ?y = "1 / x"
  let ?n = "\<lceil>?y\<rceil> - 1"
  from x x1 have y1: "1 < ?y"
    by simp
  then have "1 < \<lceil>?y\<rceil>"
    by (simp add: less_ceiling_iff)
  then have pos: "0 < ?n"
    by simp
  from bitlen_bounds [OF pos] have "?n < 2 ^ nat (bitlen ?n)"
    by simp
  then have "\<lceil>?y\<rceil> \<le> 2 ^ nat (bitlen ?n)"
    by simp
  then have c: "rat_of_int \<lceil>?y\<rceil> \<le> rat_of_int (2 ^ nat (bitlen ?n))"
    by (simp only: of_int_le_iff)
  have "?y \<le> rat_of_int \<lceil>?y\<rceil>"
    by (rule le_of_int_ceiling)
  also note c
  also have "rat_of_int (2 ^ nat (bitlen ?n)) = 2 ^ nat (bitlen ?n)"
    by simp
  finally have "?y \<le> 2 ^ nat (bitlen ?n)" .
  with x have "1 \<le> 2 ^ nat (bitlen ?n) * x"
    by (simp add: field_simps)
  then have "1 / 2 ^ nat (bitlen ?n) \<le> x"
    by (simp add: field_simps)
  moreover have "(2::rat) powi (- bitlen ?n) = 1 / 2 ^ nat (bitlen ?n)"
    using bitlen_nonneg [of ?n] by (simp add: power_int_def field_simps)
  ultimately show ?thesis
    using False by (simp add: binade_def)
qed

lemma binade_less: "0 < x \<Longrightarrow> x < 2 ^ n \<Longrightarrow> binade x < int n"
proof -
  assume "0 < x" "x < 2 ^ n"
  then have "(2::rat) powi binade x < 2 powi int n"
    using binade_lower [of x] by simp
  then show ?thesis
    by (rule power_int_le_imp_less_exp [rotated]) simp_all
qed

lemma ulp_inverse: "e < 53 \<Longrightarrow> (2::rat) powi (e - 52) = 1 / 2 ^ nat (52 - e)"
proof -
  assume "e < 53"
  then have "(2::rat) powi (e - 52) = 2 powi (- int (nat (52 - e)))"
    by simp
  also have "\<dots> = 1 / 2 ^ nat (52 - e)"
    by (simp only: power_int_minus_divide power_int_of_nat)
  finally show ?thesis .
qed

lemma round_float64_pos_int:
  "0 < n \<Longrightarrow> n < 2 ^ 53 \<Longrightarrow> round_float64 (of_int n) = of_int n"
proof -
  assume n: "0 < n" "n < 2 ^ 53"
  let ?x = "rat_of_int n"
  let ?e = "binade ?x"
  from n have x: "0 < ?x" "?x < 2 ^ 53"
    by simp_all
  then have e: "?e < 53"
    using binade_less [of ?x 53] by simp
  note u = ulp_inverse [OF e]
  have "?x / 2 powi (?e - 52) = of_int (n * 2 ^ nat (52 - ?e))"
    unfolding u by simp
  then have "round_half_even (?x / 2 powi (?e - 52)) = n * 2 ^ nat (52 - ?e)"
    by (simp only: round_half_even_of_int)
  then have "of_int (round_half_even (?x / 2 powi (?e - 52))) * 2 powi (?e - 52) = ?x"
    unfolding u by simp
  moreover have "\<bar>?x\<bar> = ?x" "sgn ?x = 1" "?x \<noteq> 0"
    using x by simp_all
  ultimately show ?thesis
    unfolding round_float64_def Let_def by (simp only: if_False mult_1 mult.assoc)
qed

lemma round_float64_minus: "round_float64 (- x) = - round_float64 x"
  by (simp add: round_float64_def Let_def)

lemma round_float64_int: "\<bar>n\<bar> < 2 ^ 53 \<Longrightarrow> round_float64 (of_int n) = of_int n"
proof -
  assume b: "\<bar>n\<bar> < 2 ^ 53"
  consider "n = 0" | "0 < n" | "n < 0"
    by linarith
  then show ?thesis
  proof cases
    case 1
    then show ?thesis
      by (simp add: round_float64_def)
  next
    case 2
    with b show ?thesis
      by (simp add: round_float64_pos_int)
  next
    case 3
    with b have "round_float64 (of_int (- n)) = of_int (- n)"
      by (intro round_float64_pos_int) simp_all
    then show ?thesis
      by (simp add: round_float64_minus)
  qed
qed

lemma round_float64_nonneg: "0 \<le> x \<Longrightarrow> 0 \<le> round_float64 x"
proof (cases "x = 0")
  case True
  then show ?thesis
    by (simp add: round_float64_def)
next
  case False
  assume "0 \<le> x"
  with False have x: "0 < x"
    by simp
  let ?u = "(2::rat) powi (binade \<bar>x\<bar> - 52)"
  have u: "0 < ?u"
    by (simp add: zero_less_power_int)
  with x have "0 \<le> \<bar>x\<bar> / ?u"
    by simp
  then have "0 \<le> round_half_even (\<bar>x\<bar> / ?u)"
    by (rule round_half_even_nonneg)
  with u x show ?thesis
    by (simp add: round_float64_def Let_def)
qed

lemma round_float64_le_100: "0 \<le> x \<Longrightarrow> x \<le> 100 \<Longrightarrow> round_float64 x \<le> 100"
proof (cases "x = 0")
  case True
  then show ?thesis
    by (simp add: round_float64_def)
next
  case False
  assume "0 \<le> x" and le: "x \<le> 100"
  with False have x: "0 < x" "\<bar>x\<bar> = x"
    by simp_all
  let ?e = "binade x"
  from x le have "x < 2 ^ 7"
    by simp
  with x have "?e < 7"
    using binade_less [of x 7] by simp
  then have e: "?e < 53"
    by simp
  let ?k = "2 ^ nat (52 - ?e) :: int"
  have u: "(2::rat) powi (?e - 52) = 1 / of_int ?k"
    by (simp add: ulp_inverse [OF e])
  have k: "0 < rat_of_int ?k"
    by simp
  from le k have "x * of_int ?k \<le> 100 * of_int ?k"
    by (simp only: mult_le_cancel_right_pos)
  then have "x / 2 powi (?e - 52) \<le> of_int (100 * ?k)"
    by (simp add: u)
  then have "round_half_even (x / 2 powi (?e - 52)) \<le> 100 * ?k"
    by (rule round_half_even_le)
  then have "rat_of_int (round_half_even (x / 2 powi (?e - 52))) \<le> rat_of_int (100 * ?k)"
    by (simp only: of_int_le_iff)
  then have "rat_of_int (round_half_even (x / 2 powi (?e - 52))) / of_int ?k \<le> 100"
    using k by (simp add: field_simps)
  with x show ?thesis
    by (simp add: round_float64_def Let_def u)
qed

lemma round_float64_third: "round_float64 (100 / 3) = 4691249611844267 / 140737488355328"
  by code_simp

text \<open>
  While the counts are small, the conversions and the product are exact, and the
  percentage is the exact quotient, rounded once.
\<close>

lemma percent_rounded_once:
  "\<bar>t\<bar> < 2 ^ 46 \<Longrightarrow> \<bar>w\<bar> < 2 ^ 53 \<Longrightarrow>
   float64_div (float64_mul 100 (float64_of_int t)) (float64_of_int w) =
     round_float64 (100 * of_int t / of_int w)"
proof -
  assume t: "\<bar>t\<bar> < 2 ^ 46" and w: "\<bar>w\<bar> < 2 ^ 53"
  from t have "\<bar>t\<bar> < 2 ^ 53"
    by simp
  then have ct: "float64_of_int t = of_int t"
    unfolding float64_of_int_def by (rule round_float64_int)
  from w have cw: "float64_of_int w = of_int w"
    unfolding float64_of_int_def by (rule round_float64_int)
  from t have "\<bar>100 * t\<bar> < 2 ^ 53"
    by simp
  then have "round_float64 (of_int (100 * t)) = of_int (100 * t)"
    by (rule round_float64_int)
  then have "float64_mul 100 (of_int t) = 100 * of_int t"
    by (simp add: float64_mul_def)
  then show ?thesis
    by (simp add: ct cw float64_div_def)
qed

section \<open>Properties of the aggregated statistics\<close>

lemma sint_of_nat_small:
  "n < 2 ^ (LENGTH('w) - 1) \<Longrightarrow> sint (of_nat n :: 'w::len word) = int n"
proof -
  assume "n < 2 ^ (LENGTH('w) - 1)"
  then have "int n < 2 ^ (LENGTH('w) - 1)"
    by (metis of_nat_less_iff of_nat_numeral of_nat_power)
  moreover have "- (2 ^ (LENGTH('w) - 1)) \<le> int n"
  proof -
    have "- (2 ^ (LENGTH('w) - 1)) \<le> (0::int)"
      by simp
    also have "0 \<le> int n"
      by simp
    finally show ?thesis .
  qed
  ultimately have "signed_take_bit (LENGTH('w) - 1) (int n) = int n"
    by (intro signed_take_bit_int_eq_self)
  moreover have "sint (word_of_int (int n) :: 'w word) =
      signed_take_bit (LENGTH('w) - 1) (int n)"
    by (rule sint_sbintrunc')
  moreover have "(word_of_int (int n) :: 'w word) = of_nat n"
    by (rule of_int_of_nat_eq)
  ultimately show ?thesis
    by (simp only:)
qed

lemma sint_succ:
  "sint x < 2 ^ (LENGTH('w) - 1) - 1 \<Longrightarrow> sint (x + 1) = sint (x :: 'w::len word) + 1"
proof -
  assume "sint x < 2 ^ (LENGTH('w) - 1) - 1"
  then have "sint x + 1 < 2 ^ (LENGTH('w) - 1)"
    by simp
  moreover have "- (2 ^ (LENGTH('w) - 1)) \<le> sint x + 1"
    using sint_ge [of x] by simp
  ultimately have "signed_take_bit (LENGTH('w) - 1) (sint x + 1) = sint x + 1"
    by (intro signed_take_bit_int_eq_self)
  moreover have "x + 1 = word_of_int (sint x + 1)"
    by simp
  ultimately show ?thesis
    by (simp only: sint_sbintrunc')
qed

lemma two_small: "32 \<le> LENGTH('w::len) \<Longrightarrow> (2::nat) < 2 ^ (LENGTH('w) - 1)"
proof -
  assume "32 \<le> LENGTH('w)"
  then have "(2::nat) ^ 2 \<le> 2 ^ (LENGTH('w) - 1)"
    by (intro power_increasing) simp_all
  then show ?thesis
    by simp
qed

lemma HandleDomain_Attempted: "Attempted (HandleDomain a r) = Attempted a + 1"
  by (simp add: HandleDomain_def Let_def split: option.splits)

lemma HandleDomain_log_empty:
  "(HandleDomain_log a r = []) = (sint (Attempted a + 1) mod 1000 \<noteq> 0)"
  by (simp add: HandleDomain_log_def Let_def)

lemma HandleDomain_no_hosts:
  "length (HostnameResults r) = 0 \<Longrightarrow> HandleDomain a r = a\<lparr>Attempted := Attempted a + 1\<rparr>"
  by (simp add: HandleDomain_def Let_def)

lemma HandleDomain_WithMXs:
  "length (HostnameResults r) \<noteq> 0 \<Longrightarrow> WithMXs (HandleDomain a r) = WithMXs a + 1"
  by (simp add: HandleDomain_def Let_def split: option.splits)

lemma HandleDomain_enforce:
  "length (HostnameResults r) \<noteq> 0 \<Longrightarrow> MTASTSResult r = Some p \<Longrightarrow> Mode p = ''enforce'' \<Longrightarrow>
   HandleDomain a r =
     a\<lparr>Attempted := Attempted a + 1, WithMXs := WithMXs a + 1,
       MTASTSEnforce := MTASTSEnforce a + 1,
       MTASTSEnforceList := MTASTSEnforceList a @ [Domain' r]\<rparr>"
  by (simp add: HandleDomain_def Let_def)

lemma HandleDomain_testing:
  "length (HostnameResults r) \<noteq> 0 \<Longrightarrow> MTASTSResult r = Some p \<Longrightarrow> Mode p = ''testing'' \<Longrightarrow>
   HandleDomain a r =
     a\<lparr>Attempted := Attempted a + 1, WithMXs := WithMXs a + 1,
       MTASTSTesting := MTASTSTesting a + 1,
       MTASTSTestingList := MTASTSTestingList a @ [Domain' r]\<rparr>"
  by (simp add: HandleDomain_def Let_def)

lemma HandleDomain_other_mode:
  "length (HostnameResults r) \<noteq> 0 \<Longrightarrow> MTASTSResult r = Some p \<Longrightarrow>
   Mode p \<noteq> ''enforce'' \<Longrightarrow> Mode p \<noteq> ''testing'' \<Longrightarrow>
   HandleDomain a r = a\<lparr>Attempted := Attempted a + 1, WithMXs := WithMXs a + 1\<rparr>"
  by (simp add: HandleDomain_def Let_def)

lemma HandleDomain_no_policy:
  "length (HostnameResults r) \<noteq> 0 \<Longrightarrow> MTASTSResult r = None \<Longrightarrow>
   HandleDomain a r = a\<lparr>Attempted := Attempted a + 1, WithMXs := WithMXs a + 1\<rparr>"
  by (simp add: HandleDomain_def Let_def)

lemma three_results:
  "handle_all (fresh_scan t src)
     [\<lparr>Domain' = d1, HostnameResults = [], MTASTSResult = None\<rparr>,
      \<lparr>Domain' = d2, HostnameResults = h2 # hs2, MTASTSResult = Some \<lparr>Mode = ''enforce''\<rparr>\<rparr>,
      \<lparr>Domain' = d3, HostnameResults = h3 # hs3, MTASTSResult = Some \<lparr>Mode = ''testing''\<rparr>\<rparr>]
   = \<lparr>Time = t, Source = src, Attempted = 3, WithMXs = 2, MTASTSTesting = 1,
      MTASTSTestingList = [d3], MTASTSEnforce = 1, MTASTSEnforceList = [d2]\<rparr>"
  by (simp add: handle_all_def fresh_scan_def HandleDomain_def Let_def)

lemma three_results_percent:
  "32 \<le> LENGTH('w::len) \<Longrightarrow>
   PercentMTASTS
     (\<lparr>Time = t, Source = src, Attempted = 3, WithMXs = 2, MTASTSTesting = 1,
      MTASTSTestingList = [d3], MTASTSEnforce = 1, MTASTSEnforceList = [d2]\<rparr>
      :: ('t, 'w) AggregatedScan) = 100"
  (is "_ \<Longrightarrow> PercentMTASTS ?a = 100")
proof -
  assume "32 \<le> LENGTH('w)"
  then have "sint (of_nat 2 :: 'w word) = int 2"
    by (intro sint_of_nat_small two_small)
  then have two: "sint (2 :: 'w word) = 2"
    by simp
  then have nz: "(2 :: 'w word) \<noteq> 0"
    by force
  have tot: "TotalMTASTS ?a = 2" and w: "WithMXs ?a = 2"
    by (simp_all add: TotalMTASTS_def)
  have "PercentMTASTS ?a =
      float64_div (float64_mul 100 (float64_of_int 2)) (float64_of_int 2)"
    unfolding PercentMTASTS_def tot w two using nz by (simp only: if_False)
  also have "\<dots> = round_float64 (100 * of_int 2 / of_int 2)"
    by (rule percent_rounded_once) simp_all
  also have "\<dots> = round_float64 (of_int 100)"
    by simp
  also have "\<dots> = of_int 100"
    by (rule round_float64_int) simp
  finally show ?thesis
    by simp
qed

lemma sint_nonzero: "w \<noteq> 0 \<Longrightarrow> sint (w :: 'w::len word) \<noteq> 0"
proof
  assume "w \<noteq> 0" and z: "sint w = 0"
  have "w = word_of_int (sint w)"
    by simp
  with z have "w = 0"
    by simp
  with \<open>w \<noteq> 0\<close> show False
    by simp
qed

lemma percent_bounds:
  assumes "0 \<le> t" and "t \<le> w" and "0 < w" and "w < 2 ^ 46"
  shows "0 \<le> float64_div (float64_mul 100 (float64_of_int t)) (float64_of_int w)"
    and "float64_div (float64_mul 100 (float64_of_int t)) (float64_of_int w) \<le> 100"
proof -
  from assms have "\<bar>t\<bar> < 2 ^ 46" "\<bar>w\<bar> < 2 ^ 53"
    by simp_all
  then have p: "float64_div (float64_mul 100 (float64_of_int t)) (float64_of_int w) =
      round_float64 (100 * of_int t / of_int w)"
    by (rule percent_rounded_once)
  from assms have "rat_of_int t \<le> rat_of_int w"
    by (simp only: of_int_le_iff)
  with assms have le: "100 * rat_of_int t / rat_of_int w \<le> 100"
    by (simp add: divide_le_eq)
  from assms have ge: "0 \<le> 100 * rat_of_int t / rat_of_int w"
    by simp
  from ge show "0 \<le> float64_div (float64_mul 100 (float64_of_int t)) (float64_of_int w)"
    unfolding p by (rule round_float64_nonneg)
  from ge le show "float64_div (float64_mul 100 (float64_of_int t)) (float64_of_int w) \<le> 100"
    unfolding p by (rule round_float64_le_100)
qed

lemma percent_full:
  assumes "w \<noteq> 0" and "\<bar>w\<bar> < 2 ^ 46"
  shows "float64_div (float64_mul 100 (float64_of_int w)) (float64_of_int w) = 100"
proof -
  from assms have "\<bar>w\<bar> < 2 ^ 46" "\<bar>w\<bar> < 2 ^ 53"
    by simp_all
  then have "float64_div (float64_mul 100 (float64_of_int w)) (float64_of_int w) =
      round_float64 (100 * of_int w / of_int w)"
    by (rule percent_rounded_once)
  also from assms have "\<dots> = round_float64 (of_int 100)"
    by simp
  also have "\<dots> = of_int 100"
    by (rule round_float64_int) simp
  finally show ?thesis
    by simp
qed

lemma PercentMTASTS_bounds:
  assumes "0 \<le> sint (TotalMTASTS a)" and "sint (TotalMTASTS a) \<le> sint (WithMXs a)"
    and "sint (WithMXs a) < 2 ^ 46"
  shows "0 \<le> PercentMTASTS a" and "PercentMTASTS a \<le> 100"
proof -
  have "0 \<le> PercentMTASTS a \<and> PercentMTASTS a \<le> 100"
  proof (cases "WithMXs a = 0")
    case True
    then show ?thesis
      by (simp add: PercentMTASTS_def)
  next
    case False
    then have "sint (WithMXs a) \<noteq> 0"
      by (rule sint_nonzero)
    with assms have w: "0 < sint (WithMXs a)"
      by simp
    from False have "PercentMTASTS a =
        float64_div (float64_mul 100 (float64_of_int (sint (TotalMTASTS a))))
          (float64_of_int (sint (WithMXs a)))"
      unfolding PercentMTASTS_def by (simp only: if_False)
    with percent_bounds [OF assms(1) assms(2) w assms(3)] show ?thesis
      by (simp only: simp_thms)
  qed
  then show "0 \<le> PercentMTASTS a" and "PercentMTASTS a \<le> 100"
    by simp_all
qed

text \<open>
  Claim C4. \<open>HandleDomain\<close> adds one to \<open>Attempted\<close>, in the arithmetic of Go's \<open>int\<close>: the
  counter goes up by one unless it stands at the largest \<open>int\<close>, from where it wraps. For
  a result with no host-level sub-results nothing else changes. Otherwise \<open>WithMXs\<close> goes
  up by one, and a policy result with mode \<open>enforce\<close> adds one to \<open>MTASTSEnforce\<close> and the
  domain to the end of the enforce list, one with mode \<open>testing\<close> adds one to
  \<open>MTASTSTesting\<close> and the domain to the end of the testing list, and any other mode or no
  policy result changes neither. A fresh scan that handles a result without hosts, one
  with mode \<open>enforce\<close> and one with mode \<open>testing\<close> ends with Attempted 3, WithMXs 2,
  MTASTSEnforce 1, MTASTSTesting 1, each list holding its one domain, and \<open>PercentMTASTS\<close>
  100.
\<close>

theorem HandleDomain_counts:
  "Attempted (HandleDomain a r) = Attempted a + 1
   \<and> (sint (Attempted a) < 2 ^ (LENGTH('w) - 1) - 1 \<longrightarrow>
        sint (Attempted (HandleDomain a r)) = sint (Attempted a) + 1)
   \<and> (length (HostnameResults r) = 0 \<longrightarrow>
        HandleDomain a r = a\<lparr>Attempted := Attempted a + 1\<rparr>)
   \<and> (length (HostnameResults r) \<noteq> 0 \<longrightarrow> WithMXs (HandleDomain a r) = WithMXs a + 1)
   \<and> (length (HostnameResults r) \<noteq> 0 \<and> MTASTSResult r = Some p \<and> Mode p = ''enforce'' \<longrightarrow>
        HandleDomain a r =
          a\<lparr>Attempted := Attempted a + 1, WithMXs := WithMXs a + 1,
            MTASTSEnforce := MTASTSEnforce a + 1,
            MTASTSEnforceList := MTASTSEnforceList a @ [Domain' r]\<rparr>)
   \<and> (length (HostnameResults r) \<noteq> 0 \<and> MTASTSResult r = Some p \<and> Mode p = ''testing'' \<longrightarrow>
        HandleDomain a r =
          a\<lparr>Attempted := Attempted a + 1, WithMXs := WithMXs a + 1,
            MTASTSTesting := MTASTSTesting a + 1,
            MTASTSTestingList := MTASTSTestingList a @ [Domain' r]\<rparr>)
   \<and> (length (HostnameResults r) \<noteq> 0 \<and> MTASTSResult r = Some p
        \<and> Mode p \<noteq> ''enforce'' \<and> Mode p \<noteq> ''testing'' \<longrightarrow>
        HandleDomain a r = a\<lparr>Attempted := Attempted a + 1, WithMXs := WithMXs a + 1\<rparr>)
   \<and> (length (HostnameResults r) \<noteq> 0 \<and> MTASTSResult r = None \<longrightarrow>
        HandleDomain a r = a\<lparr>Attempted := Attempted a + 1, WithMXs := WithMXs a + 1\<rparr>)
   \<and> handle_all (fresh_scan t src)
        [\<lparr>Domain' = d1, HostnameResults = [], MTASTSResult = None\<rparr>,
         \<lparr>Domain' = d2, HostnameResults = h2 # hs2,
           MTASTSResult = Some \<lparr>Mode = ''enforce''\<rparr>\<rparr>,
         \<lparr>Domain' = d3, HostnameResults = h3 # hs3,
           MTASTSResult = Some \<lparr>Mode = ''testing''\<rparr>\<rparr>]
       = (\<lparr>Time = t, Source = src, Attempted = 3, WithMXs = 2, MTASTSTesting = 1,
          MTASTSTestingList = [d3], MTASTSEnforce = 1, MTASTSEnforceList = [d2]\<rparr>
          :: ('t, 'w) AggregatedScan)
   \<and> (32 \<le> LENGTH('w) \<longrightarrow>
        PercentMTASTS (handle_all (fresh_scan t src :: ('t, 'w) AggregatedScan)
          [\<lparr>Domain' = d1, HostnameResults = [], MTASTSResult = None\<rparr>,
           \<lparr>Domain' = d2, HostnameResults = h2 # hs2,
             MTASTSResult = Some \<lparr>Mode = ''enforce''\<rparr>\<rparr>,
           \<lparr>Domain' = d3, HostnameResults = h3 # hs3,
             MTASTSResult = Some \<lparr>Mode = ''testing''\<rparr>\<rparr>]) = 100)"
  for a :: "('t, 'w::len) AggregatedScan"
proof (intro conjI impI)
  show "Attempted (HandleDomain a r) = Attempted a + 1"
    by (rule HandleDomain_Attempted)
next
  assume "sint (Attempted a) < 2 ^ (LENGTH('w) - 1) - 1"
  then show "sint (Attempted (HandleDomain a r)) = sint (Attempted a) + 1"
    by (simp only: HandleDomain_Attempted sint_succ)
next
  assume "length (HostnameResults r) = 0"
  then show "HandleDomain a r = a\<lparr>Attempted := Attempted a + 1\<rparr>"
    by (rule HandleDomain_no_hosts)
next
  assume "length (HostnameResults r) \<noteq> 0"
  then show "WithMXs (HandleDomain a r) = WithMXs a + 1"
    by (rule HandleDomain_WithMXs)
next
  assume "length (HostnameResults r) \<noteq> 0 \<and> MTASTSResult r = Some p \<and> Mode p = ''enforce''"
  then show "HandleDomain a r =
      a\<lparr>Attempted := Attempted a + 1, WithMXs := WithMXs a + 1,
        MTASTSEnforce := MTASTSEnforce a + 1,
        MTASTSEnforceList := MTASTSEnforceList a @ [Domain' r]\<rparr>"
    by (intro HandleDomain_enforce [of r p]) simp_all
next
  assume "length (HostnameResults r) \<noteq> 0 \<and> MTASTSResult r = Some p \<and> Mode p = ''testing''"
  then show "HandleDomain a r =
      a\<lparr>Attempted := Attempted a + 1, WithMXs := WithMXs a + 1,
        MTASTSTesting := MTASTSTesting a + 1,
        MTASTSTestingList := MTASTSTestingList a @ [Domain' r]\<rparr>"
    by (intro HandleDomain_testing [of r p]) simp_all
next
  assume "length (HostnameResults r) \<noteq> 0 \<and> MTASTSResult r = Some p
      \<and> Mode p \<noteq> ''enforce'' \<and> Mode p \<noteq> ''testing''"
  then show "HandleDomain a r = a\<lparr>Attempted := Attempted a + 1, WithMXs := WithMXs a + 1\<rparr>"
    by (intro HandleDomain_other_mode [of r p]) simp_all
next
  assume "length (HostnameResults r) \<noteq> 0 \<and> MTASTSResult r = None"
  then show "HandleDomain a r = a\<lparr>Attempted := Attempted a + 1, WithMXs := WithMXs a + 1\<rparr>"
    by (intro HandleDomain_no_policy) simp_all
next
  show "handle_all (fresh_scan t src)
        [\<lparr>Domain' = d1, HostnameResults = [], MTASTSResult = None\<rparr>,
         \<lparr>Domain' = d2, HostnameResults = h2 # hs2,
           MTASTSResult = Some \<lparr>Mode = ''enforce''\<rparr>\<rparr>,
         \<lparr>Domain' = d3, HostnameResults = h3 # hs3,
           MTASTSResult = Some \<lparr>Mode = ''testing''\<rparr>\<rparr>]
       = (\<lparr>Time = t, Source = src, Attempted = 3, WithMXs = 2, MTASTSTesting = 1,
          MTASTSTestingList = [d3], MTASTSEnforce = 1, MTASTSEnforceList = [d2]\<rparr>
          :: ('t, 'w) AggregatedScan)"
    by (rule three_results)
next
  assume "32 \<le> LENGTH('w)"
  then show "PercentMTASTS (handle_all (fresh_scan t src :: ('t, 'w) AggregatedScan)
          [\<lparr>Domain' = d1, HostnameResults = [], MTASTSResult = None\<rparr>,
           \<lparr>Domain' = d2, HostnameResults = h2 # hs2,
             MTASTSResult = Some \<lparr>Mode = ''enforce''\<rparr>\<rparr>,
           \<lparr>Domain' = d3, HostnameResults = h3 # hs3,
             MTASTSResult = Some \<lparr>Mode = ''testing''\<rparr>\<rparr>]) = 100"
    by (simp only: three_results three_results_percent)
qed

theorem HandleDomain_counts_witness:
  "sint (Attempted local_scan) < 2 ^ (LENGTH(64) - 1) - 1
   \<and> sint (Attempted (HandleDomain local_scan no_mx_result)) = sint (Attempted local_scan) + 1
   \<and> length (HostnameResults no_mx_result) = 0
   \<and> HandleDomain local_scan no_mx_result = local_scan\<lparr>Attempted := Attempted local_scan + 1\<rparr>
   \<and> length (HostnameResults enforce_result) \<noteq> 0
   \<and> MTASTSResult enforce_result = Some \<lparr>Mode = ''enforce''\<rparr>
   \<and> HandleDomain local_scan enforce_result =
       local_scan\<lparr>Attempted := Attempted local_scan + 1, WithMXs := WithMXs local_scan + 1,
         MTASTSEnforce := MTASTSEnforce local_scan + 1,
         MTASTSEnforceList := MTASTSEnforceList local_scan @ [Domain' enforce_result]\<rparr>
   \<and> length (HostnameResults testing_result) \<noteq> 0
   \<and> MTASTSResult testing_result = Some \<lparr>Mode = ''testing''\<rparr>
   \<and> HandleDomain local_scan testing_result =
       local_scan\<lparr>Attempted := Attempted local_scan + 1, WithMXs := WithMXs local_scan + 1,
         MTASTSTesting := MTASTSTesting local_scan + 1,
         MTASTSTestingList := MTASTSTestingList local_scan @ [Domain' testing_result]\<rparr>
   \<and> length (HostnameResults none_result) \<noteq> 0
   \<and> MTASTSResult none_result = Some \<lparr>Mode = ''none''\<rparr>
   \<and> HandleDomain local_scan none_result =
       local_scan\<lparr>Attempted := Attempted local_scan + 1, WithMXs := WithMXs local_scan + 1\<rparr>
   \<and> length (HostnameResults no_policy_result) \<noteq> 0
   \<and> MTASTSResult no_policy_result = None
   \<and> HandleDomain local_scan no_policy_result =
       local_scan\<lparr>Attempted := Attempted local_scan + 1, WithMXs := WithMXs local_scan + 1\<rparr>
   \<and> WithMXs (HandleDomain local_scan no_policy_result) = WithMXs local_scan + 1
   \<and> 32 \<le> LENGTH(64)
   \<and> PercentMTASTS (handle_all (fresh_scan () ''LOCAL'' :: (unit, 64) AggregatedScan)
        [\<lparr>Domain' = ''a.example'', HostnameResults = [], MTASTSResult = None\<rparr>,
         \<lparr>Domain' = ''b.example'', HostnameResults = [()],
           MTASTSResult = Some \<lparr>Mode = ''enforce''\<rparr>\<rparr>,
         \<lparr>Domain' = ''c.example'', HostnameResults = [()],
           MTASTSResult = Some \<lparr>Mode = ''testing''\<rparr>\<rparr>]) = 100"
proof -
  have h0: "sint (Attempted local_scan) < 2 ^ (LENGTH(64) - 1) - 1"
    by (simp add: local_scan_def fresh_scan_def)
  have h1: "length (HostnameResults no_mx_result) = 0"
    by (simp add: no_mx_result_def)
  have h2: "length (HostnameResults enforce_result) \<noteq> 0"
    "MTASTSResult enforce_result = Some \<lparr>Mode = ''enforce''\<rparr>"
    "Mode \<lparr>Mode = ''enforce''\<rparr> = ''enforce''"
    by (simp_all add: enforce_result_def)
  have h3: "length (HostnameResults testing_result) \<noteq> 0"
    "MTASTSResult testing_result = Some \<lparr>Mode = ''testing''\<rparr>"
    "Mode \<lparr>Mode = ''testing''\<rparr> = ''testing''"
    by (simp_all add: testing_result_def)
  have h4: "length (HostnameResults none_result) \<noteq> 0"
    "MTASTSResult none_result = Some \<lparr>Mode = ''none''\<rparr>"
    "Mode \<lparr>Mode = ''none''\<rparr> \<noteq> ''enforce''" "Mode \<lparr>Mode = ''none''\<rparr> \<noteq> ''testing''"
    by (simp_all add: none_result_def)
  have h5: "length (HostnameResults no_policy_result) \<noteq> 0"
    "MTASTSResult no_policy_result = None"
    by (simp_all add: no_policy_result_def)
  have h6: "32 \<le> LENGTH(64)"
    by simp
  have r0: "sint (Attempted (HandleDomain local_scan no_mx_result)) =
      sint (Attempted local_scan) + 1"
    by (rule HandleDomain_counts [where a = local_scan and r = no_mx_result,
          THEN conjunct2, THEN conjunct1, THEN mp])
      (rule h0)
  have r1: "HandleDomain local_scan no_mx_result =
      local_scan\<lparr>Attempted := Attempted local_scan + 1\<rparr>"
    by (rule HandleDomain_counts [where a = local_scan and r = no_mx_result,
          THEN conjunct2, THEN conjunct2, THEN conjunct1, THEN mp])
      (rule h1)
  have r2: "HandleDomain local_scan enforce_result =
      local_scan\<lparr>Attempted := Attempted local_scan + 1, WithMXs := WithMXs local_scan + 1,
        MTASTSEnforce := MTASTSEnforce local_scan + 1,
        MTASTSEnforceList := MTASTSEnforceList local_scan @ [Domain' enforce_result]\<rparr>"
    by (rule HandleDomain_counts [where a = local_scan and r = enforce_result
          and p = "\<lparr>Mode = ''enforce''\<rparr>",
          THEN conjunct2, THEN conjunct2, THEN conjunct2, THEN conjunct2, THEN conjunct1,
          THEN mp])
      (intro conjI h2)
  have r3: "HandleDomain local_scan testing_result =
      local_scan\<lparr>Attempted := Attempted local_scan + 1, WithMXs := WithMXs local_scan + 1,
        MTASTSTesting := MTASTSTesting local_scan + 1,
        MTASTSTestingList := MTASTSTestingList local_scan @ [Domain' testing_result]\<rparr>"
    by (rule HandleDomain_counts [where a = local_scan and r = testing_result
          and p = "\<lparr>Mode = ''testing''\<rparr>",
          THEN conjunct2, THEN conjunct2, THEN conjunct2, THEN conjunct2, THEN conjunct2,
          THEN conjunct1, THEN mp])
      (intro conjI h3)
  have r4: "HandleDomain local_scan none_result =
      local_scan\<lparr>Attempted := Attempted local_scan + 1, WithMXs := WithMXs local_scan + 1\<rparr>"
    by (rule HandleDomain_counts [where a = local_scan and r = none_result
          and p = "\<lparr>Mode = ''none''\<rparr>",
          THEN conjunct2, THEN conjunct2, THEN conjunct2, THEN conjunct2, THEN conjunct2,
          THEN conjunct2, THEN conjunct1, THEN mp])
      (intro conjI h4)
  have r5: "HandleDomain local_scan no_policy_result =
      local_scan\<lparr>Attempted := Attempted local_scan + 1, WithMXs := WithMXs local_scan + 1\<rparr>"
    by (rule HandleDomain_counts [where a = local_scan and r = no_policy_result,
          THEN conjunct2, THEN conjunct2, THEN conjunct2, THEN conjunct2, THEN conjunct2,
          THEN conjunct2, THEN conjunct2, THEN conjunct1, THEN mp])
      (intro conjI h5)
  have r6: "WithMXs (HandleDomain local_scan no_policy_result) = WithMXs local_scan + 1"
    by (rule HandleDomain_counts [where a = local_scan and r = no_policy_result,
          THEN conjunct2, THEN conjunct2, THEN conjunct2, THEN conjunct1, THEN mp])
      (rule h5)
  have r7: "PercentMTASTS (handle_all (fresh_scan () ''LOCAL'' :: (unit, 64) AggregatedScan)
        [\<lparr>Domain' = ''a.example'', HostnameResults = [], MTASTSResult = None\<rparr>,
         \<lparr>Domain' = ''b.example'', HostnameResults = [()],
           MTASTSResult = Some \<lparr>Mode = ''enforce''\<rparr>\<rparr>,
         \<lparr>Domain' = ''c.example'', HostnameResults = [()],
           MTASTSResult = Some \<lparr>Mode = ''testing''\<rparr>\<rparr>]) = 100"
    by (rule HandleDomain_counts [where a = local_scan and r = no_mx_result,
          THEN conjunct2, THEN conjunct2, THEN conjunct2, THEN conjunct2, THEN conjunct2,
          THEN conjunct2, THEN conjunct2, THEN conjunct2, THEN conjunct2, THEN mp])
      (rule h6)
  from h0 r0 h1 r1 h2(1,2) r2 h3(1,2) r3 h4(1,2) r4 h5 r5 r6 h6 r7 show ?thesis
    by (intro conjI)
qed

text \<open>
  Claim C7. \<open>TotalMTASTS\<close> is the sum of \<open>MTASTSTesting\<close> and \<open>MTASTSEnforce\<close>, in the
  arithmetic of Go's \<open>int\<close>. \<open>PercentMTASTS\<close> is 0 when \<open>WithMXs\<close> is 0, as on a fresh scan,
  so nothing is divided by zero; otherwise it is \<open>100 * TotalMTASTS / WithMXs\<close> computed in
  \<open>float64\<close>: the product of 100 and the converted total, divided by the converted
  \<open>WithMXs\<close>. While the total is below \<open>2 ^ 46\<close> in absolute value and \<open>WithMXs\<close> below
  \<open>2 ^ 53\<close>, that is the exact value of \<open>100 * TotalMTASTS / WithMXs\<close> rounded once to a
  \<open>float64\<close>. It is a percentage: between 0 and 100 when the total is between 0 and
  \<open>WithMXs\<close>, and 100, not 1, when every domain with MXs supports MTA-STS, for
  \<open>WithMXs\<close> below \<open>2 ^ 46\<close>.
\<close>

theorem PercentMTASTS_is_percentage:
  "TotalMTASTS a = MTASTSTesting a + MTASTSEnforce a
   \<and> (WithMXs a = 0 \<longrightarrow> PercentMTASTS a = 0)
   \<and> PercentMTASTS (fresh_scan t src :: ('t, 'w) AggregatedScan) = 0
   \<and> (WithMXs a \<noteq> 0 \<longrightarrow>
        PercentMTASTS a =
          float64_div (float64_mul 100 (float64_of_int (sint (TotalMTASTS a))))
            (float64_of_int (sint (WithMXs a))))
   \<and> (WithMXs a \<noteq> 0 \<and> \<bar>sint (TotalMTASTS a)\<bar> < 2 ^ 46 \<and> \<bar>sint (WithMXs a)\<bar> < 2 ^ 53 \<longrightarrow>
        PercentMTASTS a =
          round_float64 (100 * of_int (sint (TotalMTASTS a)) / of_int (sint (WithMXs a))))
   \<and> (0 \<le> sint (TotalMTASTS a) \<and> sint (TotalMTASTS a) \<le> sint (WithMXs a)
        \<and> sint (WithMXs a) < 2 ^ 46 \<longrightarrow>
        0 \<le> PercentMTASTS a \<and> PercentMTASTS a \<le> 100)
   \<and> (WithMXs a \<noteq> 0 \<and> TotalMTASTS a = WithMXs a \<and> \<bar>sint (WithMXs a)\<bar> < 2 ^ 46 \<longrightarrow>
        PercentMTASTS a = 100)"
  for a :: "('t, 'w::len) AggregatedScan"
proof (intro conjI impI)
  show "TotalMTASTS a = MTASTSTesting a + MTASTSEnforce a"
    by (simp add: TotalMTASTS_def)
next
  assume "WithMXs a = 0"
  then show "PercentMTASTS a = 0"
    by (simp add: PercentMTASTS_def)
next
  show "PercentMTASTS (fresh_scan t src :: ('t, 'w) AggregatedScan) = 0"
    by (simp add: PercentMTASTS_def fresh_scan_def)
next
  assume "WithMXs a \<noteq> 0"
  then show "PercentMTASTS a =
      float64_div (float64_mul 100 (float64_of_int (sint (TotalMTASTS a))))
        (float64_of_int (sint (WithMXs a)))"
    by (simp add: PercentMTASTS_def)
next
  assume h: "WithMXs a \<noteq> 0 \<and> \<bar>sint (TotalMTASTS a)\<bar> < 2 ^ 46
      \<and> \<bar>sint (WithMXs a)\<bar> < 2 ^ 53"
  then have "PercentMTASTS a =
      float64_div (float64_mul 100 (float64_of_int (sint (TotalMTASTS a))))
        (float64_of_int (sint (WithMXs a)))"
    unfolding PercentMTASTS_def by (simp only: if_False)
  also from h have "\<dots> =
      round_float64 (100 * of_int (sint (TotalMTASTS a)) / of_int (sint (WithMXs a)))"
    by (intro percent_rounded_once) (elim conjE, assumption)+
  finally show "PercentMTASTS a =
      round_float64 (100 * of_int (sint (TotalMTASTS a)) / of_int (sint (WithMXs a)))" .
next
  assume b: "0 \<le> sint (TotalMTASTS a) \<and> sint (TotalMTASTS a) \<le> sint (WithMXs a)
      \<and> sint (WithMXs a) < 2 ^ 46"
  then show "0 \<le> PercentMTASTS a"
    by (intro PercentMTASTS_bounds) simp_all
  from b show "PercentMTASTS a \<le> 100"
    by (intro PercentMTASTS_bounds) simp_all
next
  assume e: "WithMXs a \<noteq> 0 \<and> TotalMTASTS a = WithMXs a \<and> \<bar>sint (WithMXs a)\<bar> < 2 ^ 46"
  then have nz: "sint (WithMXs a) \<noteq> 0"
    by (intro sint_nonzero) simp
  from e have "PercentMTASTS a =
      float64_div (float64_mul 100 (float64_of_int (sint (WithMXs a))))
        (float64_of_int (sint (WithMXs a)))"
    unfolding PercentMTASTS_def by (simp only: if_False)
  also from nz e have "\<dots> = 100"
    by (intro percent_full) simp_all
  finally show "PercentMTASTS a = 100" .
qed

theorem PercentMTASTS_is_percentage_witness:
  "WithMXs local_scan = 0 \<and> PercentMTASTS local_scan = 0
   \<and> WithMXs third_scan \<noteq> 0
   \<and> \<bar>sint (TotalMTASTS third_scan)\<bar> < 2 ^ 46 \<and> \<bar>sint (WithMXs third_scan)\<bar> < 2 ^ 53
   \<and> PercentMTASTS third_scan = 4691249611844267 / 140737488355328
   \<and> 0 \<le> sint (TotalMTASTS half_scan)
   \<and> sint (TotalMTASTS half_scan) \<le> sint (WithMXs half_scan)
   \<and> sint (WithMXs half_scan) < 2 ^ 46
   \<and> 0 \<le> PercentMTASTS half_scan \<and> PercentMTASTS half_scan \<le> 100
   \<and> WithMXs full_scan \<noteq> 0 \<and> TotalMTASTS full_scan = WithMXs full_scan
   \<and> \<bar>sint (WithMXs full_scan)\<bar> < 2 ^ 46
   \<and> PercentMTASTS full_scan = 100"
proof -
  have z: "WithMXs local_scan = 0"
    by (simp add: local_scan_def fresh_scan_def)
  have p0: "PercentMTASTS local_scan = 0"
    by (rule PercentMTASTS_is_percentage [of local_scan, THEN conjunct2, THEN conjunct1,
          THEN mp])
      (rule z)
  have t: "WithMXs third_scan \<noteq> 0" "sint (TotalMTASTS third_scan) = 1"
    "sint (WithMXs third_scan) = 3"
    by (simp_all add: third_scan_def TotalMTASTS_def)
  then have tb: "\<bar>sint (TotalMTASTS third_scan)\<bar> < 2 ^ 46"
    "\<bar>sint (WithMXs third_scan)\<bar> < 2 ^ 53"
    by simp_all
  have "PercentMTASTS third_scan =
      round_float64 (100 * of_int (sint (TotalMTASTS third_scan))
        / of_int (sint (WithMXs third_scan)))"
    by (rule PercentMTASTS_is_percentage [of third_scan, THEN conjunct2, THEN conjunct2,
          THEN conjunct2, THEN conjunct2, THEN conjunct1, THEN mp])
      (intro conjI t(1) tb)
  also have "\<dots> = round_float64 (100 / 3)"
    by (simp only: t of_int_1 of_int_numeral mult_1_right)
  finally have p3: "PercentMTASTS third_scan = 4691249611844267 / 140737488355328"
    by (simp only: round_float64_third)
  have h: "sint (TotalMTASTS half_scan) = 2" "sint (WithMXs half_scan) = 4"
    by (simp_all add: half_scan_def TotalMTASTS_def)
  then have hb: "0 \<le> sint (TotalMTASTS half_scan)"
    "sint (TotalMTASTS half_scan) \<le> sint (WithMXs half_scan)"
    "sint (WithMXs half_scan) < 2 ^ 46"
    by simp_all
  have ph: "0 \<le> PercentMTASTS half_scan \<and> PercentMTASTS half_scan \<le> 100"
    by (rule PercentMTASTS_is_percentage [of half_scan, THEN conjunct2, THEN conjunct2,
          THEN conjunct2, THEN conjunct2, THEN conjunct2, THEN conjunct1, THEN mp])
      (intro conjI hb)
  have f: "WithMXs full_scan \<noteq> 0" "TotalMTASTS full_scan = WithMXs full_scan"
    "\<bar>sint (WithMXs full_scan)\<bar> < 2 ^ 46"
    by (simp_all add: full_scan_def TotalMTASTS_def)
  have pf: "PercentMTASTS full_scan = 100"
    by (rule PercentMTASTS_is_percentage [of full_scan, THEN conjunct2, THEN conjunct2,
          THEN conjunct2, THEN conjunct2, THEN conjunct2, THEN conjunct2, THEN mp])
      (intro conjI f)
  from z p0 t(1) tb p3 hb ph f pf show ?thesis
    by (intro conjI) (elim conjE, assumption)+
qed

subsection \<open>The counters after any sequence of results\<close>

lemma handle_all_snoc: "handle_all a (rs @ [r]) = HandleDomain (handle_all a rs) r"
  by (simp add: handle_all_def)

lemma HandleDomain_flags:
  "HandleDomain a r =
     a\<lparr>Attempted := Attempted a + 1,
       WithMXs := WithMXs a + (if has_mxs r then 1 else 0),
       MTASTSTesting := MTASTSTesting a + (if has_mode ''testing'' r then 1 else 0),
       MTASTSTestingList :=
         MTASTSTestingList a @ (if has_mode ''testing'' r then [Domain' r] else []),
       MTASTSEnforce := MTASTSEnforce a + (if has_mode ''enforce'' r then 1 else 0),
       MTASTSEnforceList :=
         MTASTSEnforceList a @ (if has_mode ''enforce'' r then [Domain' r] else [])\<rparr>"
  by (simp add: HandleDomain_def Let_def has_mxs_def has_mode_def split: option.splits)

text \<open>
  The state after a sequence of results, from a fresh scan: every counter is the number
  of results of its kind, as a word, and every list holds their domains in order.
\<close>

lemma handle_all_fresh:
  "handle_all (fresh_scan t src) rs =
     \<lparr>Time = t, Source = src,
      Attempted = of_nat (length rs),
      WithMXs = of_nat (length (filter has_mxs rs)),
      MTASTSTesting = of_nat (length (filter (has_mode ''testing'') rs)),
      MTASTSTestingList = map Domain' (filter (has_mode ''testing'') rs),
      MTASTSEnforce = of_nat (length (filter (has_mode ''enforce'') rs)),
      MTASTSEnforceList = map Domain' (filter (has_mode ''enforce'') rs)\<rparr>"
proof (induction rs rule: rev_induct)
  case Nil
  show ?case
    by (simp add: handle_all_def fresh_scan_def)
next
  case (snoc r rs)
  show ?case
    unfolding handle_all_snoc snoc.IH
    by (simp add: HandleDomain_flags)
qed

lemma mode_counts:
  "length (filter (has_mode ''enforce'') rs) + length (filter (has_mode ''testing'') rs)
     \<le> length (filter has_mxs rs)"
  by (induction rs) (auto simp: has_mode_def split: option.splits)

lemma counters_after:
  fixes rs :: "'h DomainResult list" and t :: 't and src :: string
  assumes b: "length rs < 2 ^ (LENGTH('w::len) - 1)"
  defines "s \<equiv> handle_all (fresh_scan t src :: ('t, 'w) AggregatedScan) rs"
  shows "sint (Attempted s) = int (length rs)"
    and "sint (WithMXs s) = int (length (filter has_mxs rs))"
    and "sint (MTASTSEnforce s) = int (length (filter (has_mode ''enforce'') rs))"
    and "sint (MTASTSTesting s) = int (length (filter (has_mode ''testing'') rs))"
    and "sint (TotalMTASTS s) =
      int (length (filter (has_mode ''testing'') rs)
        + length (filter (has_mode ''enforce'') rs))"
    and "length (MTASTSEnforceList s) = length (filter (has_mode ''enforce'') rs)"
    and "length (MTASTSTestingList s) = length (filter (has_mode ''testing'') rs)"
proof -
  have m: "length (filter has_mxs rs) \<le> length rs"
    by simp
  from m b have bm: "length (filter has_mxs rs) < 2 ^ (LENGTH('w) - 1)"
    by (rule le_less_trans)
  from mode_counts [of rs] bm
  have bs: "length (filter (has_mode ''testing'') rs)
      + length (filter (has_mode ''enforce'') rs) < 2 ^ (LENGTH('w) - 1)"
    by simp
  then have be: "length (filter (has_mode ''enforce'') rs) < 2 ^ (LENGTH('w) - 1)"
    and bt: "length (filter (has_mode ''testing'') rs) < 2 ^ (LENGTH('w) - 1)"
    by simp_all
  show "sint (Attempted s) = int (length rs)"
    unfolding s_def handle_all_fresh using b by (simp add: sint_of_nat_small)
  show "sint (WithMXs s) = int (length (filter has_mxs rs))"
    unfolding s_def handle_all_fresh using bm by (simp add: sint_of_nat_small)
  show "sint (MTASTSEnforce s) = int (length (filter (has_mode ''enforce'') rs))"
    unfolding s_def handle_all_fresh using be by (simp add: sint_of_nat_small)
  show "sint (MTASTSTesting s) = int (length (filter (has_mode ''testing'') rs))"
    unfolding s_def handle_all_fresh using bt by (simp add: sint_of_nat_small)
  have "TotalMTASTS s =
      of_nat (length (filter (has_mode ''testing'') rs)
        + length (filter (has_mode ''enforce'') rs))"
    unfolding s_def handle_all_fresh by (simp add: TotalMTASTS_def)
  with bs show "sint (TotalMTASTS s) =
      int (length (filter (has_mode ''testing'') rs)
        + length (filter (has_mode ''enforce'') rs))"
    by (simp only: sint_of_nat_small)
  show "length (MTASTSEnforceList s) = length (filter (has_mode ''enforce'') rs)"
    unfolding s_def handle_all_fresh by simp
  show "length (MTASTSTestingList s) = length (filter (has_mode ''testing'') rs)"
    unfolding s_def handle_all_fresh by simp
qed

lemma percent_above_100:
  "float64_div (float64_mul 100 (float64_of_int 360287970189643))
     (float64_of_int 360287970189643) = 7036874417766401 / 70368744177664"
  by code_simp

lemma many_enforce:
  "handle_all local_scan (replicate n enforce_result) =
     \<lparr>Time = (), Source = ''LOCAL'', Attempted = of_nat n, WithMXs = of_nat n,
      MTASTSTesting = 0, MTASTSTestingList = [], MTASTSEnforce = of_nat n,
      MTASTSEnforceList = replicate n ''b.example''\<rparr>"
proof -
  have "has_mxs enforce_result" "has_mode ''enforce'' enforce_result"
    "\<not> has_mode ''testing'' enforce_result"
    by (simp_all add: has_mxs_def has_mode_def enforce_result_def)
  then show ?thesis
    by (simp add: local_scan_def handle_all_fresh enforce_result_def)
qed

lemma many_enforce_percent:
  "PercentMTASTS (handle_all local_scan (replicate 360287970189643 enforce_result)) =
     7036874417766401 / 70368744177664"
proof -
  have s: "sint (of_nat 360287970189643 :: 64 word) = 360287970189643"
    by simp
  have nz: "(of_nat 360287970189643 :: 64 word) \<noteq> 0"
    by simp
  have "PercentMTASTS (handle_all local_scan (replicate 360287970189643 enforce_result)) =
      float64_div (float64_mul 100 (float64_of_int 360287970189643))
        (float64_of_int 360287970189643)"
    unfolding many_enforce PercentMTASTS_def TotalMTASTS_def
    using nz s by simp
  then show ?thesis
    by (simp only: percent_above_100)
qed

text \<open>
  As stated for any finite sequence of calls, the invariant fails in two places. Where
  the counters wrap: on a platform whose \<open>int\<close> has 32 bits, after one result without
  hosts and \<open>2 ^ 31 - 1\<close> results with hosts, \<open>WithMXs\<close> is \<open>2 ^ 31 - 1\<close> and \<open>Attempted\<close>
  has wrapped to \<open>- 2 ^ 31\<close>. Where the product \<open>100 * float64(TotalMTASTS)\<close> is rounded:
  with 64 bits, after 360287970189643 results in enforce mode the product
  36028797018964300 lies halfway between two doubles and is rounded up to
  36028797018964304, and the quotient is the double next above 100.
\<close>

theorem counters_wrap_counterexample:
  "\<not> sint (WithMXs (handle_all local_scan32
          (no_mx_result # replicate (2 ^ 31 - 1) no_policy_result)))
      \<le> sint (Attempted (handle_all local_scan32
          (no_mx_result # replicate (2 ^ 31 - 1) no_policy_result)))
   \<and> \<not> PercentMTASTS (handle_all local_scan
          (replicate 360287970189643 enforce_result)) \<le> 100"
proof (intro conjI)
  show "\<not> sint (WithMXs (handle_all local_scan32
          (no_mx_result # replicate (2 ^ 31 - 1) no_policy_result)))
      \<le> sint (Attempted (handle_all local_scan32
          (no_mx_result # replicate (2 ^ 31 - 1) no_policy_result)))"
    by (simp add: local_scan32_def handle_all_fresh has_mxs_def no_mx_result_def
        no_policy_result_def)
  show "\<not> PercentMTASTS (handle_all local_scan
          (replicate 360287970189643 enforce_result)) \<le> 100"
    by (simp add: many_enforce_percent)
qed

text \<open>
  Claim C10, amended. Starting from a scan whose counters are zero and whose lists are
  empty, after any sequence of fewer than \<open>2 ^ (N - 1)\<close> calls of \<open>HandleDomain\<close>, where \<open>N\<close>
  is the number of bits of Go's \<open>int\<close>, the length of the enforce list is \<open>MTASTSEnforce\<close>,
  the length of the testing list is \<open>MTASTSTesting\<close>,
  \<open>MTASTSEnforce + MTASTSTesting \<le> WithMXs \<le> Attempted\<close>, and \<open>Attempted\<close> is the number of
  calls; after fewer than \<open>2 ^ 46\<close> calls, moreover, \<open>PercentMTASTS\<close> is at most 100.
\<close>

theorem handle_all_counters_consistent:
  "length rs < 2 ^ (LENGTH('w) - 1) \<longrightarrow>
     int (length (MTASTSEnforceList (handle_all (fresh_scan t src :: ('t, 'w) AggregatedScan) rs)))
       = sint (MTASTSEnforce (handle_all (fresh_scan t src :: ('t, 'w) AggregatedScan) rs))
     \<and> int (length (MTASTSTestingList (handle_all (fresh_scan t src :: ('t, 'w) AggregatedScan) rs)))
       = sint (MTASTSTesting (handle_all (fresh_scan t src :: ('t, 'w) AggregatedScan) rs))
     \<and> sint (MTASTSEnforce (handle_all (fresh_scan t src :: ('t, 'w) AggregatedScan) rs))
       + sint (MTASTSTesting (handle_all (fresh_scan t src :: ('t, 'w) AggregatedScan) rs))
       \<le> sint (WithMXs (handle_all (fresh_scan t src :: ('t, 'w) AggregatedScan) rs))
     \<and> sint (WithMXs (handle_all (fresh_scan t src :: ('t, 'w) AggregatedScan) rs))
       \<le> sint (Attempted (handle_all (fresh_scan t src :: ('t, 'w) AggregatedScan) rs))
     \<and> sint (Attempted (handle_all (fresh_scan t src :: ('t, 'w) AggregatedScan) rs))
       = int (length rs)
     \<and> (length rs < 2 ^ 46 \<longrightarrow>
          PercentMTASTS (handle_all (fresh_scan t src :: ('t, 'w::len) AggregatedScan) rs)
            \<le> 100)"
  for rs :: "'h DomainResult list"
proof
  let ?s = "handle_all (fresh_scan t src :: ('t, 'w) AggregatedScan) rs"
  let ?e = "length (filter (has_mode ''enforce'') rs)"
  let ?t = "length (filter (has_mode ''testing'') rs)"
  let ?m = "length (filter has_mxs rs)"
  assume b: "length rs < 2 ^ (LENGTH('w) - 1)"
  note c = counters_after [OF b, of t src]
  have m: "?m \<le> length rs"
    by simp
  have et: "?e + ?t \<le> ?m"
    by (rule mode_counts)
  have p: "length rs < 2 ^ 46 \<longrightarrow> PercentMTASTS ?s \<le> 100"
  proof
    assume "length rs < 2 ^ 46"
    with m have "?m < 2 ^ 46"
      by (rule le_less_trans)
    then have "int ?m < 2 ^ 46"
      by (metis of_nat_less_iff of_nat_numeral of_nat_power)
    moreover from et have "int (?t + ?e) \<le> int ?m"
      by simp
    ultimately show "PercentMTASTS ?s \<le> 100"
      by (intro PercentMTASTS_bounds) (simp_all only: c of_nat_0_le_iff)
  qed
  from et m p show "int (length (MTASTSEnforceList ?s)) = sint (MTASTSEnforce ?s)
     \<and> int (length (MTASTSTestingList ?s)) = sint (MTASTSTesting ?s)
     \<and> sint (MTASTSEnforce ?s) + sint (MTASTSTesting ?s) \<le> sint (WithMXs ?s)
     \<and> sint (WithMXs ?s) \<le> sint (Attempted ?s)
     \<and> sint (Attempted ?s) = int (length rs)
     \<and> (length rs < 2 ^ 46 \<longrightarrow> PercentMTASTS ?s \<le> 100)"
    by (simp add: c)
qed

theorem handle_all_counters_consistent_witness:
  "length five_results < 2 ^ (LENGTH(64) - 1)
   \<and> length five_results < 2 ^ 46
   \<and> int (length (MTASTSEnforceList (handle_all local_scan five_results)))
       = sint (MTASTSEnforce (handle_all local_scan five_results))
   \<and> int (length (MTASTSTestingList (handle_all local_scan five_results)))
       = sint (MTASTSTesting (handle_all local_scan five_results))
   \<and> sint (MTASTSEnforce (handle_all local_scan five_results))
       + sint (MTASTSTesting (handle_all local_scan five_results))
       \<le> sint (WithMXs (handle_all local_scan five_results))
   \<and> sint (WithMXs (handle_all local_scan five_results))
       \<le> sint (Attempted (handle_all local_scan five_results))
   \<and> sint (Attempted (handle_all local_scan five_results)) = 5
   \<and> PercentMTASTS (handle_all local_scan five_results) \<le> 100"
proof -
  have l: "length five_results = 5"
    by (simp add: five_results_def)
  then have b: "length five_results < 2 ^ (LENGTH(64) - 1)" "length five_results < 2 ^ 46"
    by simp_all
  note w = handle_all_counters_consistent
    [where rs = five_results and t = "()" and src = "''LOCAL''" and 'w = 64, THEN mp,
      OF b(1), folded local_scan_def]
  from w b(2) have "PercentMTASTS (handle_all local_scan five_results) \<le> 100"
    by (elim conjE impE)
  with w b l show ?thesis
    by simp
qed

section \<open>Properties of the producer\<close>

lemma producer_skips_empty_record:
  "producer domainColumn (Record [] # reads) = producer domainColumn reads"
  by simp

lemma producer_sends_selected_field:
  "0 \<le> domainColumn \<Longrightarrow> domainColumn < int (length data) \<Longrightarrow>
   producer domainColumn (Record data # reads) =
     (data ! nat domainColumn # fst (producer domainColumn reads),
      snd (producer domainColumn reads))"
  by (auto split: prod.splits)

lemma producer_short_record:
  "0 < length data \<Longrightarrow> int (length data) \<le> domainColumn \<Longrightarrow>
   producer domainColumn (Record data # reads) = ([], IndexOutOfRange)"
  by simp

lemma producer_sent_fields:
  "x \<in> set (fst (producer domainColumn reads)) \<Longrightarrow>
   \<exists>data. Record data \<in> set reads \<and> 0 \<le> domainColumn
     \<and> domainColumn < int (length data) \<and> x = data ! nat domainColumn"
proof (induction domainColumn reads rule: producer.induct)
  case (4 domainColumn data reads)
  show ?case
  proof (cases "length data > 0 \<and> 0 \<le> domainColumn \<and> domainColumn < int (length data)")
    case True
    with "4.prems" have "x = data ! nat domainColumn
        \<or> x \<in> set (fst (producer domainColumn reads))"
      by (auto split: prod.splits)
    with True "4.IH"(1) show ?thesis
      by auto
  next
    case False
    with "4.prems" have "0 = length data" "x \<in> set (fst (producer domainColumn reads))"
      by (auto split: if_splits)
    with "4.IH"(2) show ?thesis
      by auto
  qed
qed simp_all

text \<open>
  Claim C9. A record of length zero sends nothing, and a record with enough columns sends
  the selected field; but a record that is not empty and has too few columns is not
  skipped. With the identifier in column 1, a record with the single field
  \<open>example.com\<close> makes the index expression panic: nothing is sent, the record after it
  is never read, and the channel is not closed.
\<close>

theorem producer_short_record_panics:
  "producer 1 [Record [''example.com''], Record [''example.org''], EOF]
     = ([], IndexOutOfRange)"
  by simp

section \<open>Properties of the batch pipeline\<close>

lemma poolSize_positive: "0 < poolSize atoi"
  by (simp add: poolSize_def defaultPoolSize_def split: option.splits)

lemma sum_list_update_mset:
  "i < length ws \<Longrightarrow>
   sum_list (map f (ws[i := w])) + f (ws ! i) = sum_list (map f ws) + (f w :: 'a multiset)"
  by (induction ws arbitrary: i) (auto split: nat.splits)

lemma sum_list_update_nat:
  "i < length ws \<Longrightarrow>
   sum_list (map f (ws[i := w])) + f (ws ! i) = sum_list (map f ws) + (f w :: nat)"
  by (induction ws arbitrary: i) (auto split: nat.splits)

lemma unfinished_update:
  "i < length ws \<Longrightarrow>
   unfinished (ws[i := w]) + owes_done (ws ! i) = unfinished ws + owes_done w"
  unfolding unfinished_def by (rule sum_list_update_nat)

lemma step_decreases:
  "step domainColumn CheckDomain s s' \<Longrightarrow> steps_left s' < steps_left s"
proof (induction rule: step.induct)
  case (send_work s data reads i)
  from sum_list_update_nat [of i "workers s" worker_steps "Checking (data ! nat domainColumn)"]
    send_work
  show ?case by (simp add: steps_left_def)
next
  case (check s i domain)
  from sum_list_update_nat [of i "workers s" worker_steps "Sending (CheckDomain domain)"] check
  show ?case by (simp add: steps_left_def)
next
  case (send_result s i r)
  from sum_list_update_nat [of i "workers s" worker_steps Idle] send_result
  show ?case by (simp add: steps_left_def)
next
  case (work_closed s i)
  from sum_list_update_nat [of i "workers s" worker_steps Signalling] work_closed
  show ?case by (simp add: steps_left_def)
next
  case (send_done s i k)
  from sum_list_update_nat [of i "workers s" worker_steps Finished] send_done
  show ?case by (simp add: steps_left_def)
qed (simp_all add: steps_left_def)


lemma sum_list_replicate_empty: "sum_list (replicate n ({#} :: 'a multiset)) = {#}"
  by (induction n) simp_all

lemma consistent_start:
  "consistent n domainColumn CheckDomain reads (CheckCSV_start n reads)"
  by (simp add: consistent_def CheckCSV_start_def outstanding_def outcome_def unfinished_def
      sum_list_replicate sum_list_replicate_empty)

lemma producer_Record_fst:
  "0 < length data \<Longrightarrow> 0 \<le> domainColumn \<Longrightarrow> domainColumn < int (length data) \<Longrightarrow>
   fst (producer domainColumn (Record data # reads)) =
     data ! nat domainColumn # fst (producer domainColumn reads)"
  by (simp split: prod.splits)

lemma producer_Record_snd:
  "0 < length data \<Longrightarrow> 0 \<le> domainColumn \<Longrightarrow> domainColumn < int (length data) \<Longrightarrow>
   snd (producer domainColumn (Record data # reads)) = snd (producer domainColumn reads)"
  by (simp split: prod.splits)

lemma no_left_work_update:
  "filter left_work ws = [] \<Longrightarrow> \<not> left_work w \<Longrightarrow> filter left_work (ws[i := w]) = []"
  using set_update_subset_insert [of ws i w]
  by (auto simp: filter_empty_conv)

lemma left_work_nth:
  "i < length ws \<Longrightarrow> left_work (ws ! i) \<Longrightarrow> filter left_work ws \<noteq> []"
  by (auto simp: filter_empty_conv)

lemma consistent_step:
  "step domainColumn CheckDomain s s' \<Longrightarrow>
   consistent n domainColumn CheckDomain reads s \<Longrightarrow>
   consistent n domainColumn CheckDomain reads s'"
proof (induction rule: step.induct)
  case (read_empty s data reads')
  then show ?case
    by (simp add: consistent_def outstanding_def outcome_def)
next
  case (send_work s data reads' i)
  let ?w = "Checking (data ! nat domainColumn) :: 'a worker"
  from send_work
    sum_list_update_mset [of i "workers s" "in_flight CheckDomain" ?w]
    unfinished_update [of i "workers s" ?w]
    no_left_work_update [of "workers s" ?w i]
  show ?case
    by (simp add: consistent_def outstanding_def outcome_def producer_Record_fst
        producer_Record_snd del: producer.simps)
next
  case (index_panic s data reads')
  then show ?case
    by (auto simp add: consistent_def outstanding_def outcome_def)
next
  case (read_error s reads')
  then show ?case
    by (simp add: consistent_def outstanding_def outcome_def)
next
  case (close_work_exhausted s)
  then show ?case
    by (simp add: consistent_def outstanding_def outcome_def)
next
  case (close_work s reads')
  then show ?case
    by (simp add: consistent_def outstanding_def outcome_def)
next
  case (check s i domain)
  let ?w = "Sending (CheckDomain domain)"
  from check
    sum_list_update_mset [of i "workers s" "in_flight CheckDomain" ?w]
    unfinished_update [of i "workers s" ?w]
    no_left_work_update [of "workers s" ?w i]
  show ?case
    by (auto simp add: consistent_def outstanding_def)
next
  case (send_result s i r)
  let ?w = "Idle :: 'a worker"
  from send_result sum_list_update_mset [of i "workers s" "in_flight CheckDomain" ?w]
  have eq: "sum_list (map (in_flight CheckDomain) (workers s)) =
      add_mset r (sum_list (map (in_flight CheckDomain) ((workers s)[i := ?w])))"
    by simp
  from send_result
    unfinished_update [of i "workers s" ?w]
    no_left_work_update [of "workers s" ?w i]
  show ?case
    by (auto simp add: consistent_def outstanding_def eq)
next
  case (work_closed s i)
  let ?w = "Signalling :: 'a worker"
  from work_closed
    sum_list_update_mset [of i "workers s" "in_flight CheckDomain" ?w]
    unfinished_update [of i "workers s" ?w]
  show ?case
    by (auto simp add: consistent_def outstanding_def)
next
  case (send_done s i k)
  let ?w = "Finished :: 'a worker"
  from send_done
    sum_list_update_mset [of i "workers s" "in_flight CheckDomain" ?w]
    unfinished_update [of i "workers s" ?w]
    left_work_nth [of i "workers s"]
  show ?case
    by (auto simp add: consistent_def outstanding_def)
next
  case (close_results s)
  then show ?case
    by (simp add: consistent_def outstanding_def)
next
  case (range_ends s)
  then show ?case
    by (simp add: consistent_def outstanding_def)
qed

lemma consistent_reachable:
  "(step domainColumn CheckDomain)\<^sup>*\<^sup>* (CheckCSV_start n reads) s \<Longrightarrow>
   consistent n domainColumn CheckDomain reads s"
  by (induction rule: rtranclp_induct) (simp_all add: consistent_start consistent_step)

lemma unfinished_0: "unfinished ws = 0 \<Longrightarrow> w \<in> set ws \<Longrightarrow> w = Finished"
proof -
  assume "unfinished ws = 0" "w \<in> set ws"
  then have "owes_done w = 0"
    by (auto simp: unfinished_def)
  then show ?thesis
    by (cases w) simp_all
qed

lemma all_Finished_in_flight:
  "unfinished ws = 0 \<Longrightarrow> sum_list (map (in_flight CheckDomain) ws) = {#}"
proof -
  assume u: "unfinished ws = 0"
  have "\<forall>w\<in>set ws. in_flight CheckDomain w = {#}"
  proof
    fix w assume "w \<in> set ws"
    with u have "w = Finished" by (rule unfinished_0)
    then show "in_flight CheckDomain w = {#}" by simp
  qed
  then show ?thesis
    by (induction ws) simp_all
qed

lemma all_Finished_Closed:
  "consistent n domainColumn CheckDomain reads s \<Longrightarrow> 0 < n \<Longrightarrow>
   unfinished (workers s) = 0 \<Longrightarrow> producer_at s = Ended Closed"
proof -
  assume c: "consistent n domainColumn CheckDomain reads s" and n: "0 < n"
    and u: "unfinished (workers s) = 0"
  from c n have len: "0 < length (workers s)"
    by (simp add: consistent_def)
  then have "workers s ! 0 \<in> set (workers s)"
    by simp
  with u have "workers s ! 0 = Finished"
    by (rule unfinished_0)
  with len have "filter left_work (workers s) \<noteq> []"
    by (intro left_work_nth [of 0]) simp_all
  with c show ?thesis
    by (simp add: consistent_def)
qed

lemma returned_handled_all:
  assumes c: "consistent n domainColumn CheckDomain reads s" and n: "0 < n"
    and r: "consumer_at s = Returned"
  shows "mset (handled s) = mset (map CheckDomain (fst (producer domainColumn reads)))"
    and "snd (producer domainColumn reads) = Closed"
    and "closes s = 1"
    and "unfinished (workers s) = 0"
proof -
  from c r have cl: "closer_at s = Closed_results"
    by (auto simp: consistent_def)
  with c show u: "unfinished (workers s) = 0" and "closes s = 1"
    by (simp_all add: consistent_def)
  from c n u have p: "producer_at s = Ended Closed"
    by (rule all_Finished_Closed)
  with c show "snd (producer domainColumn reads) = Closed"
    by (simp add: consistent_def outcome_def)
  from p u have "outstanding domainColumn CheckDomain s = {#}"
    by (simp add: outstanding_def all_Finished_in_flight)
  with c show "mset (handled s) = mset (map CheckDomain (fst (producer domainColumn reads)))"
    by (simp add: consistent_def)
qed


lemma unfinished_pos:
  "unfinished ws \<noteq> 0 \<Longrightarrow> \<exists>i<length ws. ws ! i \<noteq> Finished"
proof (rule ccontr)
  assume u: "unfinished ws \<noteq> 0" and "\<not> (\<exists>i<length ws. ws ! i \<noteq> Finished)"
  then have "\<forall>w\<in>set ws. w = Finished"
    by (auto simp: in_set_conv_nth)
  then have "unfinished ws = 0"
    unfolding unfinished_def by (induction ws) simp_all
  with u show False by simp
qed

lemma progress:
  assumes c: "consistent n domainColumn CheckDomain reads s" and n: "0 < n"
    and a: "alive s" and r: "consumer_at s = Ranging"
  shows "\<exists>s'. step domainColumn CheckDomain s s'"
proof (cases "producer_at s")
  case (Reading rs)
  show ?thesis
  proof (cases rs)
    case Nil
    with Reading show ?thesis
      by (blast intro: step.close_work_exhausted)
  next
    case (Cons x rest)
    show ?thesis
    proof (cases x)
      case EOF
      with Reading Cons show ?thesis
        by (blast intro: step.close_work)
    next
      case ReadError
      with Reading Cons show ?thesis
        by (blast intro: step.read_error)
    next
      case (Record data)
      with Reading Cons have p: "producer_at s = Reading (Record data # rest)"
        by simp
      consider "length data = 0"
        | "length data > 0" "\<not> (0 \<le> domainColumn \<and> domainColumn < int (length data))"
        | "length data > 0" "0 \<le> domainColumn" "domainColumn < int (length data)"
        by fastforce
      then show ?thesis
      proof cases
        case 1
        with p show ?thesis
          by (blast intro: step.read_empty)
      next
        case 2
        with p show ?thesis
          by (blast intro: step.index_panic)
      next
        case 3
        from c n have len: "0 < length (workers s)"
          by (simp add: consistent_def)
        from c p have "filter left_work (workers s) = []"
          by (simp add: consistent_def)
        with len have nl: "\<not> left_work (workers s ! 0)"
          using left_work_nth [of 0 "workers s"] by blast
        show ?thesis
        proof (cases "workers s ! 0")
          case Idle
          with p 3 len show ?thesis
            by (blast intro: step.send_work)
        next
          case (Checking d)
          with a len show ?thesis
            by (blast intro: step.check)
        next
          case (Sending x)
          with a r len show ?thesis
            by (blast intro: step.send_result)
        next
          case Signalling
          with nl show ?thesis by simp
        next
          case Finished
          with nl show ?thesis by simp
        qed
      qed
    qed
  qed
next
  case (Ended e)
  with a have p: "producer_at s = Ended Closed"
    by (cases e) (simp_all add: alive_def)
  show ?thesis
  proof (cases "unfinished (workers s) = 0")
    case True
    with c have w: "waits_for (closer_at s) = 0"
      by (simp add: consistent_def)
    show ?thesis
    proof (cases "closer_at s")
      case (Waiting k)
      with w have "closer_at s = Waiting 0"
        by simp
      with a show ?thesis
        by (blast intro: step.close_results)
    next
      case Closed_results
      with a r show ?thesis
        by (blast intro: step.range_ends)
    qed
  next
    case False
    then obtain i where i: "i < length (workers s)" "workers s ! i \<noteq> Finished"
      using unfinished_pos by blast
    show ?thesis
    proof (cases "workers s ! i")
      case Idle
      with a i p show ?thesis
        by (blast intro: step.work_closed)
    next
      case (Checking d)
      with a i show ?thesis
        by (blast intro: step.check)
    next
      case (Sending x)
      with a r i show ?thesis
        by (blast intro: step.send_result)
    next
      case Signalling
      from c False have "waits_for (closer_at s) \<noteq> 0"
        by (simp add: consistent_def)
      then obtain k where "closer_at s = Waiting (Suc k)"
        by (cases "closer_at s") (auto simp: gr0_conv_Suc)
      with a i Signalling show ?thesis
        by (blast intro: step.send_done)
    next
      case Finished
      with i show ?thesis by simp
    qed
  qed
qed

lemma closed_after_finished:
  "consistent n domainColumn CheckDomain reads s \<Longrightarrow>
   closes s \<le> 1 \<and> (0 < closes s \<longrightarrow> unfinished (workers s) = 0)"
  by (cases "closer_at s") (simp_all add: consistent_def)

lemma alive_if_Closed:
  "consistent n domainColumn CheckDomain reads s \<Longrightarrow>
   snd (producer domainColumn reads) = Closed \<Longrightarrow> alive s"
  by (auto simp add: consistent_def outcome_def alive_def)


lemma all_Finished_replicate:
  "consistent n domainColumn CheckDomain reads s \<Longrightarrow> unfinished (workers s) = 0 \<Longrightarrow>
   workers s = replicate n Finished"
proof -
  assume c: "consistent n domainColumn CheckDomain reads s" and u: "unfinished (workers s) = 0"
  from u have "\<forall>w\<in>set (workers s). w = Finished"
    by (blast intro: unfinished_0)
  then have "workers s = replicate (length (workers s)) Finished"
    by (simp add: replicate_length_same)
  with c show ?thesis
    by (simp add: consistent_def)
qed

lemma stopped_returned:
  assumes c: "consistent n domainColumn CheckDomain reads s" and n: "0 < n"
    and e: "snd (producer domainColumn reads) = Closed"
    and stop: "\<nexists>s'. step domainColumn CheckDomain s s'"
  shows "consumer_at s = Returned"
proof (rule ccontr)
  assume "consumer_at s \<noteq> Returned"
  then have "consumer_at s = Ranging"
    by (cases "consumer_at s") simp_all
  moreover from c e have "alive s"
    by (rule alive_if_Closed)
  ultimately have "\<exists>s'. step domainColumn CheckDomain s s'"
    using c n by (intro progress)
  with stop show False
    by simp
qed

text \<open>
  Claim C3. Let \<open>CheckCSV\<close> start with \<open>n \<ge> 1\<close> workers, and let \<open>s\<close> be a state that it
  reaches, under any schedule of its goroutines. If \<open>CheckCSV\<close> has returned in \<open>s\<close>, the
  producer has closed \<open>work\<close> at the end of its input, and the handler has received
  exactly the results of the identifiers that the producer sends, one for each
  occurrence of an identifier, in some order; \<open>results\<close> has been closed once, and all
  \<open>n\<close> workers have finished. In every state \<open>results\<close> has been closed at most once, and
  only when all workers had finished. The pipeline does not get stuck: when the input
  ends without a read error or a short record and no goroutine can take a step,
  \<open>CheckCSV\<close> has returned. And every step lowers \<open>steps_left\<close>, so that every schedule
  comes to such an end.
\<close>

theorem CheckCSV_handles_each_identifier_once:
  "0 < n \<and> (step domainColumn CheckDomain)\<^sup>*\<^sup>* (CheckCSV_start n reads) s \<longrightarrow>
     (consumer_at s = Returned \<longrightarrow>
        snd (producer domainColumn reads) = Closed
        \<and> mset (handled s) = mset (map CheckDomain (fst (producer domainColumn reads)))
        \<and> length (handled s) = length (fst (producer domainColumn reads))
        \<and> closes s = 1
        \<and> workers s = replicate n Finished)
     \<and> closes s \<le> 1
     \<and> (0 < closes s \<longrightarrow> workers s = replicate n Finished)
     \<and> (snd (producer domainColumn reads) = Closed
          \<and> (\<nexists>s'. step domainColumn CheckDomain s s') \<longrightarrow>
        consumer_at s = Returned)
     \<and> (\<forall>s'. step domainColumn CheckDomain s s' \<longrightarrow> steps_left s' < steps_left s)"
proof
  assume "0 < n \<and> (step domainColumn CheckDomain)\<^sup>*\<^sup>* (CheckCSV_start n reads) s"
  then have n: "0 < n" and c: "consistent n domainColumn CheckDomain reads s"
    by (simp_all add: consistent_reachable)
  have returned: "consumer_at s = Returned \<longrightarrow>
      snd (producer domainColumn reads) = Closed
      \<and> mset (handled s) = mset (map CheckDomain (fst (producer domainColumn reads)))
      \<and> length (handled s) = length (fst (producer domainColumn reads))
      \<and> closes s = 1
      \<and> workers s = replicate n Finished"
  proof
    assume r: "consumer_at s = Returned"
    note h = returned_handled_all [OF c n r]
    from h(1) have "length (handled s) = length (map CheckDomain (fst (producer domainColumn reads)))"
      by (rule mset_eq_length)
    then have "length (handled s) = length (fst (producer domainColumn reads))"
      by simp
    moreover from c h(4) have "workers s = replicate n Finished"
      by (rule all_Finished_replicate)
    ultimately show "snd (producer domainColumn reads) = Closed
      \<and> mset (handled s) = mset (map CheckDomain (fst (producer domainColumn reads)))
      \<and> length (handled s) = length (fst (producer domainColumn reads))
      \<and> closes s = 1
      \<and> workers s = replicate n Finished"
      using h by simp
  qed
  from closed_after_finished [OF c] have once: "closes s \<le> 1"
    and "0 < closes s \<longrightarrow> unfinished (workers s) = 0"
    by simp_all
  with c have after: "0 < closes s \<longrightarrow> workers s = replicate n Finished"
    by (blast intro: all_Finished_replicate)
  have stuck: "snd (producer domainColumn reads) = Closed
      \<and> (\<nexists>s'. step domainColumn CheckDomain s s') \<longrightarrow> consumer_at s = Returned"
    using c n by (blast intro: stopped_returned)
  have fewer: "\<forall>s'. step domainColumn CheckDomain s s' \<longrightarrow> steps_left s' < steps_left s"
    by (blast intro: step_decreases)
  from returned once after stuck fewer
  show "(consumer_at s = Returned \<longrightarrow>
        snd (producer domainColumn reads) = Closed
        \<and> mset (handled s) = mset (map CheckDomain (fst (producer domainColumn reads)))
        \<and> length (handled s) = length (fst (producer domainColumn reads))
        \<and> closes s = 1
        \<and> workers s = replicate n Finished)
     \<and> closes s \<le> 1
     \<and> (0 < closes s \<longrightarrow> workers s = replicate n Finished)
     \<and> (snd (producer domainColumn reads) = Closed
          \<and> (\<nexists>s'. step domainColumn CheckDomain s s') \<longrightarrow>
        consumer_at s = Returned)
     \<and> (\<forall>s'. step domainColumn CheckDomain s s' \<longrightarrow> steps_left s' < steps_left s)"
    by (intro conjI)
qed

text \<open>
  A run of two workers over the example file, in which the second identifier is handled
  before the first.
\<close>

theorem CheckCSV_handles_each_identifier_once_witness:
  "0 < (2::nat)
   \<and> (step 0 example_check)\<^sup>*\<^sup>* (CheckCSV_start 2 example_reads) example_end
   \<and> consumer_at example_end = Returned
   \<and> snd (producer 0 example_reads) = Closed
   \<and> fst (producer 0 example_reads) = [''example.com'', ''example.org'']
   \<and> mset (handled example_end) = mset (map example_check (fst (producer 0 example_reads)))
   \<and> length (handled example_end) = length (fst (producer 0 example_reads))
   \<and> closes example_end = 1
   \<and> workers example_end = replicate 2 Finished"
proof -
  let ?step = "step 0 example_check"
  let ?s0 = "\<lparr>producer_at = Reading [Record [''example.com''], Record [], Record [''example.org''], EOF], workers = [Idle, Idle], closer_at = Waiting (Suc (Suc 0)),
        closes = 0, consumer_at = Ranging, handled = []\<rparr>
      :: unit DomainResult pipeline"
  let ?s1 = "\<lparr>producer_at = Reading [Record [], Record [''example.org''], EOF], workers = [Checking ''example.com'', Idle], closer_at = Waiting (Suc (Suc 0)),
        closes = 0, consumer_at = Ranging, handled = []\<rparr>
      :: unit DomainResult pipeline"
  let ?s2 = "\<lparr>producer_at = Reading [Record [], Record [''example.org''], EOF], workers = [Sending (example_check ''example.com''), Idle], closer_at = Waiting (Suc (Suc 0)),
        closes = 0, consumer_at = Ranging, handled = []\<rparr>
      :: unit DomainResult pipeline"
  let ?s3 = "\<lparr>producer_at = Reading [Record [''example.org''], EOF], workers = [Sending (example_check ''example.com''), Idle], closer_at = Waiting (Suc (Suc 0)),
        closes = 0, consumer_at = Ranging, handled = []\<rparr>
      :: unit DomainResult pipeline"
  let ?s4 = "\<lparr>producer_at = Reading [EOF], workers = [Sending (example_check ''example.com''), Checking ''example.org''], closer_at = Waiting (Suc (Suc 0)),
        closes = 0, consumer_at = Ranging, handled = []\<rparr>
      :: unit DomainResult pipeline"
  let ?s5 = "\<lparr>producer_at = Reading [EOF], workers = [Sending (example_check ''example.com''), Sending (example_check ''example.org'')], closer_at = Waiting (Suc (Suc 0)),
        closes = 0, consumer_at = Ranging, handled = []\<rparr>
      :: unit DomainResult pipeline"
  let ?s6 = "\<lparr>producer_at = Reading [EOF], workers = [Sending (example_check ''example.com''), Idle], closer_at = Waiting (Suc (Suc 0)),
        closes = 0, consumer_at = Ranging, handled = [example_check ''example.org'']\<rparr>
      :: unit DomainResult pipeline"
  let ?s7 = "\<lparr>producer_at = Reading [EOF], workers = [Idle, Idle], closer_at = Waiting (Suc (Suc 0)),
        closes = 0, consumer_at = Ranging, handled = [example_check ''example.org'', example_check ''example.com'']\<rparr>
      :: unit DomainResult pipeline"
  let ?s8 = "\<lparr>producer_at = Ended Closed, workers = [Idle, Idle], closer_at = Waiting (Suc (Suc 0)),
        closes = 0, consumer_at = Ranging, handled = [example_check ''example.org'', example_check ''example.com'']\<rparr>
      :: unit DomainResult pipeline"
  let ?s9 = "\<lparr>producer_at = Ended Closed, workers = [Signalling, Idle], closer_at = Waiting (Suc (Suc 0)),
        closes = 0, consumer_at = Ranging, handled = [example_check ''example.org'', example_check ''example.com'']\<rparr>
      :: unit DomainResult pipeline"
  let ?s10 = "\<lparr>producer_at = Ended Closed, workers = [Signalling, Signalling], closer_at = Waiting (Suc (Suc 0)),
        closes = 0, consumer_at = Ranging, handled = [example_check ''example.org'', example_check ''example.com'']\<rparr>
      :: unit DomainResult pipeline"
  let ?s11 = "\<lparr>producer_at = Ended Closed, workers = [Finished, Signalling], closer_at = Waiting (Suc 0),
        closes = 0, consumer_at = Ranging, handled = [example_check ''example.org'', example_check ''example.com'']\<rparr>
      :: unit DomainResult pipeline"
  let ?s12 = "\<lparr>producer_at = Ended Closed, workers = [Finished, Finished], closer_at = Waiting 0,
        closes = 0, consumer_at = Ranging, handled = [example_check ''example.org'', example_check ''example.com'']\<rparr>
      :: unit DomainResult pipeline"
  let ?s13 = "\<lparr>producer_at = Ended Closed, workers = [Finished, Finished], closer_at = Closed_results,
        closes = Suc 0, consumer_at = Ranging, handled = [example_check ''example.org'', example_check ''example.com'']\<rparr>
      :: unit DomainResult pipeline"
  let ?s14 = "\<lparr>producer_at = Ended Closed, workers = [Finished, Finished], closer_at = Closed_results,
        closes = Suc 0, consumer_at = Returned, handled = [example_check ''example.org'', example_check ''example.com'']\<rparr>
      :: unit DomainResult pipeline"
  have t1: "?step ?s0 ?s1"
    using step.send_work [where s = "?s0" and data = "[''example.com'']" and reads = "[Record [], Record [''example.org''], EOF]" and i = "0" and domainColumn = 0 and CheckDomain = example_check]
    by (simp add: alive_def)
  have t2: "?step ?s1 ?s2"
    using step.check [where s = "?s1" and i = "0" and domain = "''example.com''" and domainColumn = 0 and CheckDomain = example_check]
    by (simp add: alive_def)
  have t3: "?step ?s2 ?s3"
    using step.read_empty [where s = "?s2" and data = "[]" and reads = "[Record [''example.org''], EOF]" and domainColumn = 0 and CheckDomain = example_check]
    by (simp add: alive_def)
  have t4: "?step ?s3 ?s4"
    using step.send_work [where s = "?s3" and data = "[''example.org'']" and reads = "[EOF]" and i = "Suc 0" and domainColumn = 0 and CheckDomain = example_check]
    by (simp add: alive_def)
  have t5: "?step ?s4 ?s5"
    using step.check [where s = "?s4" and i = "Suc 0" and domain = "''example.org''" and domainColumn = 0 and CheckDomain = example_check]
    by (simp add: alive_def)
  have t6: "?step ?s5 ?s6"
    using step.send_result [where s = "?s5" and i = "Suc 0" and r = "example_check ''example.org''" and domainColumn = 0 and CheckDomain = example_check]
    by (simp add: alive_def)
  have t7: "?step ?s6 ?s7"
    using step.send_result [where s = "?s6" and i = "0" and r = "example_check ''example.com''" and domainColumn = 0 and CheckDomain = example_check]
    by (simp add: alive_def)
  have t8: "?step ?s7 ?s8"
    using step.close_work [where s = "?s7" and reads = "[]" and domainColumn = 0 and CheckDomain = example_check]
    by (simp add: alive_def)
  have t9: "?step ?s8 ?s9"
    using step.work_closed [where s = "?s8" and i = "0" and domainColumn = 0 and CheckDomain = example_check]
    by (simp add: alive_def)
  have t10: "?step ?s9 ?s10"
    using step.work_closed [where s = "?s9" and i = "Suc 0" and domainColumn = 0 and CheckDomain = example_check]
    by (simp add: alive_def)
  have t11: "?step ?s10 ?s11"
    using step.send_done [where s = "?s10" and i = "0" and k = "Suc 0" and domainColumn = 0 and CheckDomain = example_check]
    by (simp add: alive_def)
  have t12: "?step ?s11 ?s12"
    using step.send_done [where s = "?s11" and i = "Suc 0" and k = "0" and domainColumn = 0 and CheckDomain = example_check]
    by (simp add: alive_def)
  have t13: "?step ?s12 ?s13"
    using step.close_results [where s = "?s12" and domainColumn = 0 and CheckDomain = example_check]
    by (simp add: alive_def)
  have t14: "?step ?s13 ?s14"
    using step.range_ends [where s = "?s13" and domainColumn = 0 and CheckDomain = example_check]
    by (simp add: alive_def)
  have "?step\<^sup>*\<^sup>* ?s0 ?s1"
    using t1 by (rule r_into_rtranclp)
  then have "?step\<^sup>*\<^sup>* ?s0 ?s2"
    using t2 by (rule rtranclp.rtrancl_into_rtrancl)
  then have "?step\<^sup>*\<^sup>* ?s0 ?s3"
    using t3 by (rule rtranclp.rtrancl_into_rtrancl)
  then have "?step\<^sup>*\<^sup>* ?s0 ?s4"
    using t4 by (rule rtranclp.rtrancl_into_rtrancl)
  then have "?step\<^sup>*\<^sup>* ?s0 ?s5"
    using t5 by (rule rtranclp.rtrancl_into_rtrancl)
  then have "?step\<^sup>*\<^sup>* ?s0 ?s6"
    using t6 by (rule rtranclp.rtrancl_into_rtrancl)
  then have "?step\<^sup>*\<^sup>* ?s0 ?s7"
    using t7 by (rule rtranclp.rtrancl_into_rtrancl)
  then have "?step\<^sup>*\<^sup>* ?s0 ?s8"
    using t8 by (rule rtranclp.rtrancl_into_rtrancl)
  then have "?step\<^sup>*\<^sup>* ?s0 ?s9"
    using t9 by (rule rtranclp.rtrancl_into_rtrancl)
  then have "?step\<^sup>*\<^sup>* ?s0 ?s10"
    using t10 by (rule rtranclp.rtrancl_into_rtrancl)
  then have "?step\<^sup>*\<^sup>* ?s0 ?s11"
    using t11 by (rule rtranclp.rtrancl_into_rtrancl)
  then have "?step\<^sup>*\<^sup>* ?s0 ?s12"
    using t12 by (rule rtranclp.rtrancl_into_rtrancl)
  then have "?step\<^sup>*\<^sup>* ?s0 ?s13"
    using t13 by (rule rtranclp.rtrancl_into_rtrancl)
  then have "?step\<^sup>*\<^sup>* ?s0 ?s14"
    using t14 by (rule rtranclp.rtrancl_into_rtrancl)
  moreover have "?s0 = CheckCSV_start 2 example_reads"
    by (simp add: CheckCSV_start_def example_reads_def numeral_2_eq_2)
  moreover have "?s14 = example_end"
    by (simp add: example_end_def)
  ultimately have run: "?step\<^sup>*\<^sup>* (CheckCSV_start 2 example_reads) example_end"
    by simp
  have two: "0 < (2::nat)"
    by simp
  have ret: "consumer_at example_end = Returned"
    by (simp add: example_end_def)
  have ids: "fst (producer 0 example_reads) = [''example.com'', ''example.org'']"
    by (simp add: example_reads_def)
  from two run have "0 < (2::nat) \<and> ?step\<^sup>*\<^sup>* (CheckCSV_start 2 example_reads) example_end"
    by (rule conjI)
  note w = CheckCSV_handles_each_identifier_once
    [where n = 2 and domainColumn = 0 and CheckDomain = example_check
      and reads = example_reads and s = example_end, THEN mp, OF this,
      THEN conjunct1, THEN mp, OF ret]
  from two run ret ids w show ?thesis
    by (intro conjI) (elim conjE, assumption)+
qed

end
